theory Spec2Isabelle
  imports Main "HOL-Library.Sublist"
begin

section \<open>Python values produced by \<open>json.load\<close>\<close>

text \<open>
  \<open>tools/fix_notebook.py\<close> works on the value that \<open>json.load\<close> returns: \<open>None\<close>,
  a \<open>bool\<close>, an \<open>int\<close>, a \<open>float\<close>, a \<open>str\<close>, a \<open>list\<close> or a \<open>dict\<close> with \<open>str\<close> keys.
  A \<open>dict\<close> keeps its insertion order, so it is an association list; a dictionary
  built by the parser has pairwise distinct keys. The parsed value is a tree: no
  object is shared between two places, so in-place mutation of a nested object is
  modelled by rebuilding the enclosing containers around the mutated object.
\<close>

datatype pyfloat = Finite int int | PosInfinity | NegInfinity | NaN

datatype json =
    JNull
  | JBool bool
  | JInt int
  | JFloat pyfloat
  | JStr string
  | JList "json list"
  | JDict "(string \<times> json) list"

text \<open>The exceptions the processing code can raise.\<close>

datatype pyerr = TypeError | KeyError

definition bindE :: "'e + 'a \<Rightarrow> ('a \<Rightarrow> 'e + 'b) \<Rightarrow> 'e + 'b" where
  "bindE r f = (case r of Inl e \<Rightarrow> Inl e | Inr x \<Rightarrow> f x)"

text \<open>
  \<open>key in v\<close> for a \<open>str\<close> key: key membership for a \<open>dict\<close>, element equality for a
  \<open>list\<close>, substring test for a \<open>str\<close>; every other value is not iterable and the
  operator raises \<open>TypeError\<close>.
\<close>

fun py_in :: "string \<Rightarrow> json \<Rightarrow> pyerr + bool" where
  "py_in k (JDict kvs) = Inr (k \<in> set (map fst kvs))"
| "py_in k (JList xs) = Inr (JStr k \<in> set xs)"
| "py_in k (JStr s) = Inr (sublist k s)"
| "py_in k JNull = Inl TypeError"
| "py_in k (JBool b) = Inl TypeError"
| "py_in k (JInt i) = Inl TypeError"
| "py_in k (JFloat f) = Inl TypeError"

text \<open>
  \<open>v[key]\<close> for a \<open>str\<close> key: the value of a \<open>dict\<close> (\<open>KeyError\<close> when the key is
  missing); lists and strings want integer indices and the other values are not
  subscriptable, so all of them raise \<open>TypeError\<close>.
\<close>

fun py_getitem :: "json \<Rightarrow> string \<Rightarrow> pyerr + json" where
  "py_getitem (JDict kvs) k = (case map_of kvs k of None \<Rightarrow> Inl KeyError | Some v \<Rightarrow> Inr v)"
| "py_getitem (JList xs) k = Inl TypeError"
| "py_getitem (JStr s) k = Inl TypeError"
| "py_getitem JNull k = Inl TypeError"
| "py_getitem (JBool b) k = Inl TypeError"
| "py_getitem (JInt i) k = Inl TypeError"
| "py_getitem (JFloat f) k = Inl TypeError"

text \<open>\<open>del v[key]\<close> for a \<open>str\<close> key; the result is the mutated object.\<close>

fun py_delitem :: "json \<Rightarrow> string \<Rightarrow> pyerr + json" where
  "py_delitem (JDict kvs) k =
     (if k \<in> set (map fst kvs) then Inr (JDict (filter (\<lambda>kv. fst kv \<noteq> k) kvs))
      else Inl KeyError)"
| "py_delitem (JList xs) k = Inl TypeError"
| "py_delitem (JStr s) k = Inl TypeError"
| "py_delitem JNull k = Inl TypeError"
| "py_delitem (JBool b) k = Inl TypeError"
| "py_delitem (JInt i) k = Inl TypeError"
| "py_delitem (JFloat f) k = Inl TypeError"

text \<open>
  The object held under key \<open>k\<close> of a dictionary was mutated in place: the entry
  keeps its position and now shows the mutated object.
\<close>

fun dict_put :: "string \<Rightarrow> json \<Rightarrow> (string \<times> json) list \<Rightarrow> (string \<times> json) list" where
  "dict_put k v [] = [(k, v)]"
| "dict_put k v ((k', v') # kvs) =
     (if k' = k then (k', v) # kvs else (k', v') # dict_put k v kvs)"

fun mutated_at :: "json \<Rightarrow> string \<Rightarrow> json \<Rightarrow> json" where
  "mutated_at (JDict kvs) k v = JDict (dict_put k v kvs)"
| "mutated_at other k v = other"

section \<open>The validator\<close>

text \<open>
  \<^verbatim>\<open>
  def has_valid_widget_state(widgets_metadata):
      if not isinstance(widgets_metadata, dict):
          return False
      return 'state' in widgets_metadata
  \<close>
\<close>

fun has_valid_widget_state :: "json \<Rightarrow> bool" where
  "has_valid_widget_state (JDict kvs) = (''state'' \<in> set (map fst kvs))"
| "has_valid_widget_state other = False"

section \<open>Removing malformed widget metadata (lines 60 to 79)\<close>

text \<open>
  The block that \<open>fix_notebook\<close> runs on the notebook (lines 63 to 69) and again on
  every cell (lines 74 to 79):
  \<^verbatim>\<open>
  if 'metadata' in owner and 'widgets' in owner['metadata']:
      widgets = owner['metadata']['widgets']
      if not has_valid_widget_state(widgets):
          print(...)
          del owner['metadata']['widgets']
          changes_made = True
  \<close>
  (for the notebook the condition is written as two nested \<open>if\<close>s, evaluated in the
  same order). None of these lines is inside a \<open>try\<close>, so a \<open>TypeError\<close> raised by
  \<open>in\<close> or by a subscript leaves \<open>fix_notebook\<close>. The source evaluates
  \<open>owner['metadata']\<close> up to three times; every evaluation gives the same object,
  which is bound once here. The result is the owner after the block and whether the
  entry was removed.
\<close>

definition remove_malformed_widgets :: "json \<Rightarrow> pyerr + (json \<times> bool)" where
  "remove_malformed_widgets owner =
     bindE (py_in ''metadata'' owner) (\<lambda>has_metadata.
       if \<not> has_metadata then Inr (owner, False)
       else bindE (py_getitem owner ''metadata'') (\<lambda>metadata.
         bindE (py_in ''widgets'' metadata) (\<lambda>has_widgets.
           if \<not> has_widgets then Inr (owner, False)
           else bindE (py_getitem metadata ''widgets'') (\<lambda>widgets.
             if has_valid_widget_state widgets then Inr (owner, False)
             else bindE (py_delitem metadata ''widgets'') (\<lambda>metadata'.
               Inr (mutated_at owner ''metadata'' metadata', True))))))"

text \<open>Decimal digits of the cell index, as the f-string prints it.\<close>

fun string_of_nat :: "nat \<Rightarrow> string" where
  "string_of_nat n =
     (if n < 10 then [char_of (48 + n)]
      else string_of_nat (n div 10) @ [char_of (48 + n mod 10)])"

declare string_of_nat.simps [simp del]

text \<open>
  What \<open>enumerate(v)\<close> iterates over: the elements of a \<open>list\<close>, the keys of a
  \<open>dict\<close>, the one-character strings of a \<open>str\<close>; the other values are not iterable.
\<close>

fun py_iter :: "json \<Rightarrow> pyerr + json list" where
  "py_iter (JList xs) = Inr xs"
| "py_iter (JDict kvs) = Inr (map (\<lambda>kv. JStr (fst kv)) kvs)"
| "py_iter (JStr s) = Inr (map (\<lambda>c. JStr [c]) s)"
| "py_iter JNull = Inl TypeError"
| "py_iter (JBool b) = Inl TypeError"
| "py_iter (JInt i) = Inl TypeError"
| "py_iter (JFloat f) = Inl TypeError"

text \<open>
  The \<open>for i, cell in enumerate(...)\<close> loop, from index \<open>i\<close> on, threading
  \<open>changes_made\<close> and the lines printed so far. An exception carries the output
  printed before it was raised.
\<close>

fun fix_cells ::
  "nat \<Rightarrow> json list \<Rightarrow> bool \<Rightarrow> string list \<Rightarrow> (pyerr \<times> string list) + (json list \<times> bool \<times> string list)"
where
  "fix_cells i [] changes_made out = Inr ([], changes_made, out)"
| "fix_cells i (cell # cells) changes_made out =
     (case remove_malformed_widgets cell of
        Inl e \<Rightarrow> Inl (e, out)
      | Inr (cell', removed) \<Rightarrow>
          (case fix_cells (Suc i) cells (changes_made \<or> removed)
                  (if removed
                   then out @ [''Removing malformed widgets metadata from cell '' @ string_of_nat i]
                   else out) of
             Inl x \<Rightarrow> Inl x
           | Inr (cells', changes_made', out') \<Rightarrow> Inr (cell' # cells', changes_made', out')))"

text \<open>The line printed when the notebook-level entry is removed, if it is.\<close>

abbreviation level_note :: "bool \<Rightarrow> string list" where
  "level_note removed \<equiv>
     (if removed then [''Removing malformed widgets metadata at notebook level''] else [])"

text \<open>
  Lines 60 to 79 as a whole: the notebook after the two passes, \<open>changes_made\<close> and
  the printed lines, or the exception that escapes. Only the cells of a \<open>list\<close> can
  be mutated (the elements iterated from a \<open>dict\<close> or a \<open>str\<close> are strings).
\<close>

definition process_notebook ::
  "json \<Rightarrow> (pyerr \<times> string list) + (json \<times> bool \<times> string list)"
where
  "process_notebook notebook =
     (case remove_malformed_widgets notebook of
        Inl e \<Rightarrow> Inl (e, [])
      | Inr (notebook1, removed) \<Rightarrow>
          (let out1 = level_note removed
           in case py_in ''cells'' notebook1 of
                Inl e \<Rightarrow> Inl (e, out1)
              | Inr False \<Rightarrow> Inr (notebook1, removed, out1)
              | Inr True \<Rightarrow>
                  (case bindE (py_getitem notebook1 ''cells'') (\<lambda>cells.
                          bindE (py_iter cells) (\<lambda>elems. Inr (cells, elems))) of
                     Inl e \<Rightarrow> Inl (e, out1)
                   | Inr (cells, elems) \<Rightarrow>
                       (case fix_cells 0 elems removed out1 of
                          Inl x \<Rightarrow> Inl x
                        | Inr (elems', changes_made, out) \<Rightarrow>
                            Inr (case cells of
                                   JList xs \<Rightarrow> mutated_at notebook1 ''cells'' (JList elems')
                                 | _ \<Rightarrow> notebook1,
                                 changes_made, out)))))"

section \<open>Files, the clock and the libraries\<close>

text \<open>
  The disk is a map from paths to file contents. Everything \<open>fix_notebook\<close> takes
  from outside the repository is a field of the environment: the formatted clock
  reading, the parser and the serialiser of the \<open>json\<close> module, the command-line
  parser, and which operations of this run fail. A failed copy or write reports a
  message and may have left bytes in the file it was writing (\<open>open(path, 'w')\<close>
  truncates before the first byte is written).
\<close>

type_synonym path = string
type_synonym bytes = string
type_synonym disk = "path \<rightharpoonup> bytes"

datatype load_result = Loaded json | JSONDecodeError string | OtherError string

record io_failure =
  reason :: string
  left_behind :: "bytes option"

record env =
  now :: string
  read_error :: "path \<Rightarrow> string option"
  json_load :: "bytes \<Rightarrow> load_result"
  json_dumps :: "json \<Rightarrow> bytes"
  copy_error :: "path \<Rightarrow> path \<Rightarrow> io_failure option"
  write_error :: "path \<Rightarrow> bytes \<Rightarrow> io_failure option"
  parse_args :: "string list \<Rightarrow> int + path"

text \<open>
  \<open>now\<close> is \<open>datetime.now().strftime("%Y%m%d_%H%M%S")\<close>; \<open>json_load\<close> is decoding the
  file as UTF-8 and parsing it (\<open>JSONDecodeError\<close>, any other exception, or the
  value); \<open>json_dumps\<close> is the text \<open>json.dump(_, indent=2, ensure_ascii=False)\<close>
  produces, encoded as UTF-8; \<open>parse_args\<close> gives \<open>args.notebook_path\<close>, or the
  status with which \<open>argparse\<close> leaves the process.
\<close>

definition after_failure :: "io_failure \<Rightarrow> path \<Rightarrow> disk \<Rightarrow> disk" where
  "after_failure f dst fs = (case left_behind f of None \<Rightarrow> fs | Some b \<Rightarrow> fs(dst \<mapsto> b))"

text \<open>\<open>shutil.copy2(src, dst)\<close>: the message of the exception and the disk, or the disk.\<close>

definition copy2 :: "env \<Rightarrow> path \<Rightarrow> path \<Rightarrow> disk \<Rightarrow> (string \<times> disk) + disk" where
  "copy2 e src dst fs =
     (case copy_error e src dst of
        Some f \<Rightarrow> Inl (reason f, after_failure f dst fs)
      | None \<Rightarrow>
          (case fs src of
             None \<Rightarrow> Inl (''No such file or directory'', fs)
           | Some b \<Rightarrow> Inr (fs(dst \<mapsto> b))))"

text \<open>\<open>with open(path, 'w', encoding='utf-8') as f: ...\<close> writing \<open>content\<close>.\<close>

definition write_file :: "env \<Rightarrow> path \<Rightarrow> bytes \<Rightarrow> disk \<Rightarrow> (string \<times> disk) + disk" where
  "write_file e dst content fs =
     (case write_error e dst content of
        Some f \<Rightarrow> Inl (reason f, after_failure f dst fs)
      | None \<Rightarrow> Inr (fs(dst \<mapsto> content)))"

text \<open>\<open>with open(notebook_path, 'r', encoding='utf-8') as f: notebook = json.load(f)\<close>.\<close>

definition load_notebook :: "env \<Rightarrow> path \<Rightarrow> disk \<Rightarrow> load_result" where
  "load_notebook e notebook_path fs =
     (case read_error e notebook_path of
        Some msg \<Rightarrow> OtherError msg
      | None \<Rightarrow>
          (case fs notebook_path of
             None \<Rightarrow> OtherError ''No such file or directory''
           | Some b \<Rightarrow> json_load e b))"

definition backup_path_of :: "env \<Rightarrow> path \<Rightarrow> path" where
  "backup_path_of e notebook_path = notebook_path @ ''.bak-'' @ now e"

text \<open>The bytes of the corrected file: the serialised notebook and a newline.\<close>

definition fixed_text :: "env \<Rightarrow> json \<Rightarrow> bytes" where
  "fixed_text e notebook = json_dumps e notebook @ [CHR 0x0A]"

section \<open>\<open>fix_notebook\<close> and \<open>main\<close>\<close>

text \<open>
  A run of \<open>fix_notebook\<close>: what it returns (\<open>Inr\<close> the boolean, \<open>Inl\<close> an exception
  that leaves the function), the disk afterwards and the lines printed.
\<close>

record run =
  outcome :: "pyerr + bool"
  files :: disk
  printed :: "string list"

text \<open>Lines 81 to 111, entered with the mutated notebook when \<open>changes_made\<close> holds.\<close>

definition save_fixed :: "env \<Rightarrow> path \<Rightarrow> disk \<Rightarrow> json \<Rightarrow> string list \<Rightarrow> run" where
  "save_fixed e notebook_path fs notebook out =
     (let backup_path = backup_path_of e notebook_path in
      case copy2 e notebook_path backup_path fs of
        Inl (msg, fs1) \<Rightarrow>
          \<lparr>outcome = Inr False, files = fs1,
           printed = out @ [''Error creating backup: '' @ msg]\<rparr>
      | Inr fs1 \<Rightarrow>
          (let out1 = out @ [''Created backup: '' @ backup_path] in
           case write_file e notebook_path (fixed_text e notebook) fs1 of
             Inr fs2 \<Rightarrow>
               \<lparr>outcome = Inr True, files = fs2,
                printed = out1 @ [''Successfully fixed: '' @ notebook_path]\<rparr>
           | Inl (msg, fs2) \<Rightarrow>
               (let out2 = out1 @ [''Error writing fixed notebook: '' @ msg] in
                case copy2 e backup_path notebook_path fs2 of
                  Inr fs3 \<Rightarrow>
                    \<lparr>outcome = Inr False, files = fs3,
                     printed = out2 @ [''Restored from backup due to write error'']\<rparr>
                | Inl (msg', fs3) \<Rightarrow>
                    \<lparr>outcome = Inr False, files = fs3,
                     printed = out2 @ [''Error restoring backup: '' @ msg']\<rparr>)))"

text \<open>
  Lines 44 to 79: the function has returned (or an exception has left it), or
  control reaches line 81 with the locals \<open>notebook\<close> and \<open>changes_made\<close> and the
  lines printed so far.
\<close>

datatype progress = Returned run | Reached json bool "string list"

definition lines_44_to_79 :: "env \<Rightarrow> path \<Rightarrow> disk \<Rightarrow> progress" where
  "lines_44_to_79 e notebook_path fs =
     (if fs notebook_path = None
      then Returned \<lparr>outcome = Inr False, files = fs,
                     printed = [''Error: File not found: '' @ notebook_path]\<rparr>
      else case load_notebook e notebook_path fs of
             JSONDecodeError msg \<Rightarrow>
               Returned \<lparr>outcome = Inr False, files = fs,
                         printed = [''Error: Invalid JSON in notebook: '' @ msg]\<rparr>
           | OtherError msg \<Rightarrow>
               Returned \<lparr>outcome = Inr False, files = fs,
                         printed = [''Error reading notebook: '' @ msg]\<rparr>
           | Loaded notebook \<Rightarrow>
               (case process_notebook notebook of
                  Inl (err, out) \<Rightarrow> Returned \<lparr>outcome = Inl err, files = fs, printed = out\<rparr>
                | Inr (notebook', changes_made, out) \<Rightarrow> Reached notebook' changes_made out))"

definition fix_notebook :: "env \<Rightarrow> path \<Rightarrow> disk \<Rightarrow> run" where
  "fix_notebook e notebook_path fs =
     (case lines_44_to_79 e notebook_path fs of
        Returned r \<Rightarrow> r
      | Reached notebook changes_made out \<Rightarrow>
          if changes_made then save_fixed e notebook_path fs notebook out
          else \<lparr>outcome = Inr True, files = fs,
                printed = out @ [''No malformed widget metadata found in: '' @ notebook_path]\<rparr>)"

text \<open>
  \<open>main\<close> ends in \<open>sys.exit(0 if success else 1)\<close>, unless \<open>argparse\<close> has left
  already or an exception of \<open>fix_notebook\<close> passes through it uncaught; the
  interpreter then prints the traceback and the process status is 1.
\<close>

datatype ending = SystemExit int | Uncaught pyerr

fun exit_status :: "ending \<Rightarrow> int" where
  "exit_status (SystemExit code) = code"
| "exit_status (Uncaught err) = 1"

definition main :: "env \<Rightarrow> string list \<Rightarrow> disk \<Rightarrow> ending \<times> disk \<times> string list" where
  "main e argv fs =
     (case parse_args e argv of
        Inl code \<Rightarrow> (SystemExit code, fs, [])
      | Inr notebook_path \<Rightarrow>
          (let r = fix_notebook e notebook_path fs in
           (case outcome r of
              Inl err \<Rightarrow> Uncaught err
            | Inr success \<Rightarrow> SystemExit (if success then 0 else 1),
            files r, printed r)))"

section \<open>Where widget metadata lives in a document\<close>

text \<open>
  The \<open>metadata.widgets\<close> entry of a notebook or of a cell, when the owner is a
  mapping whose \<open>metadata\<close> is a mapping that has the key \<open>widgets\<close>.
\<close>

definition metadata_widgets :: "json \<Rightarrow> json option" where
  "metadata_widgets owner =
     (case owner of
        JDict kvs \<Rightarrow>
          (case map_of kvs ''metadata'' of
             Some (JDict md) \<Rightarrow> map_of md ''widgets''
           | _ \<Rightarrow> None)
      | _ \<Rightarrow> None)"

text \<open>The cells of a notebook: the elements of its \<open>cells\<close> sequence.\<close>

definition cells_of :: "json \<Rightarrow> json list" where
  "cells_of notebook =
     (case notebook of
        JDict kvs \<Rightarrow> (case map_of kvs ''cells'' of Some (JList cs) \<Rightarrow> cs | _ \<Rightarrow> [])
      | _ \<Rightarrow> [])"

definition widgets_settled :: "json \<Rightarrow> bool" where
  "widgets_settled owner =
     (case metadata_widgets owner of None \<Rightarrow> True | Some w \<Rightarrow> has_valid_widget_state w)"

text \<open>
  The invariant of the specification: a \<open>metadata.widgets\<close> entry, at notebook level
  or in a cell, is a mapping with the key \<open>state\<close>.
\<close>

definition no_malformed_widgets :: "json \<Rightarrow> bool" where
  "no_malformed_widgets notebook =
     (widgets_settled notebook \<and> list_all widgets_settled (cells_of notebook))"

text \<open>A document without any \<open>metadata.widgets\<close> entry, at notebook level or in a cell.\<close>

definition no_widgets_entry :: "json \<Rightarrow> bool" where
  "no_widgets_entry notebook =
     (metadata_widgets notebook = None \<and>
      list_all (\<lambda>cell. metadata_widgets cell = None) (cells_of notebook))"

text \<open>An entry of the result is an entry of the input: it was neither made up nor changed.\<close>

definition kept_or_removed :: "json \<Rightarrow> json \<Rightarrow> bool" where
  "kept_or_removed owner owner' =
     (metadata_widgets owner' = None \<or> metadata_widgets owner' = metadata_widgets owner)"

definition widgets_only_removed :: "json \<Rightarrow> json \<Rightarrow> bool" where
  "widgets_only_removed notebook notebook' =
     (kept_or_removed notebook notebook' \<and>
      list_all2 kept_or_removed (cells_of notebook) (cells_of notebook'))"

text \<open>An owner whose valid entry, if it has one, is still there.\<close>

definition valid_block_kept :: "json \<Rightarrow> json \<Rightarrow> bool" where
  "valid_block_kept owner owner' =
     (case metadata_widgets owner of
        None \<Rightarrow> True
      | Some w \<Rightarrow> \<not> has_valid_widget_state w \<or> owner' = owner)"

text \<open>
  The document shape of the specification's data model: a mapping whose \<open>metadata\<close>,
  when present, is a mapping and whose \<open>cells\<close>, when present, is a sequence of
  mappings, each with a \<open>metadata\<close> that is a mapping when present.
\<close>

definition metadata_shaped :: "json \<Rightarrow> bool" where
  "metadata_shaped owner =
     (case owner of
        JDict kvs \<Rightarrow>
          (case map_of kvs ''metadata'' of None \<Rightarrow> True | Some (JDict md) \<Rightarrow> True | Some _ \<Rightarrow> False)
      | _ \<Rightarrow> False)"

definition well_shaped :: "json \<Rightarrow> bool" where
  "well_shaped notebook =
     (metadata_shaped notebook \<and>
      (case notebook of
         JDict kvs \<Rightarrow>
           (case map_of kvs ''cells'' of
              None \<Rightarrow> True
            | Some (JList cs) \<Rightarrow> list_all metadata_shaped cs
            | Some _ \<Rightarrow> False)
       | _ \<Rightarrow> False))"

text \<open>
  A document with every \<open>metadata.widgets\<close> entry taken out, at notebook level and in
  every cell. Two documents with the same skeleton have the same keys in the same
  order with the same values, and the same cells in the same order, everywhere
  outside those entries.
\<close>

fun drop_widgets_key :: "json \<Rightarrow> json" where
  "drop_widgets_key (JDict md) = JDict (filter (\<lambda>kv. fst kv \<noteq> ''widgets'') md)"
| "drop_widgets_key other = other"

fun without_metadata_widgets :: "json \<Rightarrow> json" where
  "without_metadata_widgets (JDict kvs) =
     JDict (map (\<lambda>kv. if fst kv = ''metadata'' then (fst kv, drop_widgets_key (snd kv)) else kv) kvs)"
| "without_metadata_widgets other = other"

fun without_cell_widgets :: "json \<Rightarrow> json" where
  "without_cell_widgets (JList cs) = JList (map without_metadata_widgets cs)"
| "without_cell_widgets other = other"

fun skeleton :: "json \<Rightarrow> json" where
  "skeleton (JDict kvs) =
     JDict (map (\<lambda>kv. if fst kv = ''metadata'' then (fst kv, drop_widgets_key (snd kv))
                       else if fst kv = ''cells'' then (fst kv, without_cell_widgets (snd kv))
                       else kv) kvs)"
| "skeleton other = other"

section \<open>Sample documents and environments\<close>

definition malformed_doc :: json where
  "malformed_doc =
     JDict [(''metadata'', JDict [(''widgets'', JDict [(''foo'', JInt 1)])]), (''cells'', JList [])]"

definition malformed_text :: bytes where
  \<open>malformed_text = ''{"metadata": {"widgets": {"foo": 1}}, "cells": []}''\<close>

definition repaired_doc :: json where
  "repaired_doc = JDict [(''metadata'', JDict []), (''cells'', JList [])]"

definition repaired_text :: bytes where
  \<open>repaired_text =
     ''{'' @ [CHR 0x0A] @ ''  "metadata": {},'' @ [CHR 0x0A] @ ''  "cells": []'' @ [CHR 0x0A] @ ''}''\<close>

definition valid_doc :: json where
  "valid_doc =
     JDict [(''cells'',
       JList [JDict [(''metadata'', JDict [(''widgets'', JDict [(''state'', JDict [])])])]])]"

definition valid_text :: bytes where
  \<open>valid_text = ''{"cells": [{"metadata": {"widgets": {"state": {}}}}]}''\<close>

definition null_cells_doc :: json where
  "null_cells_doc = JDict [(''metadata'', JDict [(''widgets'', JNull)]), (''cells'', JNull)]"

definition null_cells_text :: bytes where
  \<open>null_cells_text = ''{"metadata": {"widgets": null}, "cells": null}''\<close>

definition sample_load :: "bytes \<Rightarrow> load_result" where
  "sample_load b =
     (if b = malformed_text then Loaded malformed_doc
      else if b = repaired_text @ [CHR 0x0A] then Loaded repaired_doc
      else if b = valid_text then Loaded valid_doc
      else if b = null_cells_text then Loaded null_cells_doc
      else if b = ''null'' then Loaded JNull
      else JSONDecodeError ''Expecting value: line 1 column 1 (char 0)'')"

definition sample_dumps :: "json \<Rightarrow> bytes" where
  "sample_dumps d = (if d = repaired_doc then repaired_text else ''null'')"

definition sample_parse_args :: "string list \<Rightarrow> int + path" where
  "sample_parse_args argv = (case argv of [p] \<Rightarrow> Inr p | _ \<Rightarrow> Inl 2)"

definition sample_env :: env where
  "sample_env =
     \<lparr>now = ''20240101_120000'',
      read_error = (\<lambda>p. None),
      json_load = sample_load,
      json_dumps = sample_dumps,
      copy_error = (\<lambda>src dst. None),
      write_error = (\<lambda>dst content. None),
      parse_args = sample_parse_args\<rparr>"

definition denied :: io_failure where
  "denied = \<lparr>reason = ''[Errno 13] Permission denied'', left_behind = None\<rparr>"

definition disk_full :: io_failure where
  "disk_full = \<lparr>reason = ''[Errno 28] No space left on device'', left_behind = Some ''{''\<rparr>"

definition sample_disk :: "bytes \<Rightarrow> disk" where
  "sample_disk content = [''nb.ipynb'' \<mapsto> content]"

section \<open>Dictionaries\<close>

lemma map_of_dict_put: "map_of (dict_put k v kvs) k' = (if k' = k then Some v else map_of kvs k')"
  by (induction kvs) auto

lemma key_in_iff: "k \<in> fst ` set kvs \<longleftrightarrow> map_of kvs k \<noteq> None"
  by (simp add: map_of_eq_None_iff)

lemma keys_dict_put: "map_of kvs k \<noteq> None \<Longrightarrow> map fst (dict_put k v kvs) = map fst kvs"
  by (induction kvs) (auto split: if_splits)

lemma dict_put_same: "map_of kvs k = Some v \<Longrightarrow> dict_put k v kvs = kvs"
  by (induction kvs) (auto split: if_splits)

lemma dict_put_twice: "dict_put k v (dict_put k v' kvs) = dict_put k v kvs"
  by (induction kvs) auto

lemma map_of_filter_other: "map_of (filter (\<lambda>kv. fst kv \<noteq> k) kvs) k = None"
  by (induction kvs) auto

lemma rmw_dict:
  "remove_malformed_widgets (JDict kvs) =
     (case map_of kvs ''metadata'' of
        None \<Rightarrow> Inr (JDict kvs, False)
      | Some md \<Rightarrow>
          bindE (py_in ''widgets'' md) (\<lambda>has_widgets.
            if \<not> has_widgets then Inr (JDict kvs, False)
            else bindE (py_getitem md ''widgets'') (\<lambda>widgets.
              if has_valid_widget_state widgets then Inr (JDict kvs, False)
              else bindE (py_delitem md ''widgets'') (\<lambda>md'.
                Inr (JDict (dict_put ''metadata'' md' kvs), True)))))"
proof (cases "map_of kvs ''metadata''")
  case None
  then have "''metadata'' \<notin> fst ` set kvs" by (simp add: key_in_iff)
  with None show ?thesis by (simp add: remove_malformed_widgets_def bindE_def)
next
  case (Some md)
  then have "''metadata'' \<in> fst ` set kvs" by (simp add: key_in_iff)
  with Some show ?thesis by (simp add: remove_malformed_widgets_def bindE_def split: sum.splits)
qed


lemma rmw_not_dict:
  assumes "\<And>kvs. owner \<noteq> JDict kvs" "remove_malformed_widgets owner = Inr (owner', r)"
  shows "owner' = owner \<and> \<not> r"
proof (cases owner)
  case (JDict kvs)
  with assms(1) show ?thesis by blast
qed (use assms(2) in \<open>simp_all add: remove_malformed_widgets_def bindE_def split: if_splits\<close>)

lemma rmw_unchanged:
  assumes "remove_malformed_widgets owner = Inr (owner', False)"
  shows "owner' = owner"
proof (cases owner)
  case (JDict kvs)
  show ?thesis
  proof (cases "map_of kvs ''metadata''")
    case None
    with assms JDict show ?thesis by (simp add: rmw_dict)
  next
    case (Some md)
    with assms JDict show ?thesis
      by (simp add: rmw_dict bindE_def split: sum.splits if_splits)
  qed
qed (use assms rmw_not_dict[of owner owner' False] in simp_all)

lemma rmw_removed:
  assumes "remove_malformed_widgets owner = Inr (owner', True)"
  shows "\<exists>kvs md w. owner = JDict kvs \<and> map_of kvs ''metadata'' = Some (JDict md) \<and>
    map_of md ''widgets'' = Some w \<and> \<not> has_valid_widget_state w \<and>
    owner' = JDict (dict_put ''metadata'' (JDict (filter (\<lambda>kv. fst kv \<noteq> ''widgets'') md)) kvs)"
proof (cases owner)
  case (JDict kvs)
  with assms obtain md where md: "map_of kvs ''metadata'' = Some md"
    by (cases "map_of kvs ''metadata''") (simp_all add: rmw_dict)
  from assms JDict md have *: "bindE (py_in ''widgets'' md) (\<lambda>has_widgets.
            if \<not> has_widgets then Inr (JDict kvs, False)
            else bindE (py_getitem md ''widgets'') (\<lambda>widgets.
              if has_valid_widget_state widgets then Inr (JDict kvs, False)
              else bindE (py_delitem md ''widgets'') (\<lambda>md'.
                Inr (JDict (dict_put ''metadata'' md' kvs), True)))) = Inr (owner', True)"
    by (simp add: rmw_dict)
  show ?thesis
  proof (cases md)
    case (JDict m)
    with * show ?thesis using \<open>owner = JDict kvs\<close> md
      by (cases "map_of m ''widgets''")
         (simp_all add: bindE_def key_in_iff split: if_splits)
  qed (use * in \<open>simp_all add: bindE_def split: if_splits\<close>)
qed (use assms rmw_not_dict[of owner owner' True] in simp_all)

section \<open>The validator accepts exactly the mappings with a \<open>state\<close> key\<close>

text \<open>
  C1. \<open>has_valid_widget_state\<close> returns true exactly when its argument is a mapping
  that has the key \<open>state\<close>, whatever is stored under that key; a list, a string, a
  number, a boolean and \<open>None\<close> give false. The function reads its argument and
  nothing else, and assigns nothing: it is a function from the value to a boolean.
\<close>

theorem has_valid_widget_state_iff:
  "(has_valid_widget_state v \<longleftrightarrow> (\<exists>kvs. v = JDict kvs \<and> ''state'' \<in> fst ` set kvs)) \<and>
   \<not> has_valid_widget_state (JList xs) \<and> \<not> has_valid_widget_state (JStr s) \<and>
   \<not> has_valid_widget_state (JInt i) \<and> \<not> has_valid_widget_state (JFloat f) \<and>
   \<not> has_valid_widget_state (JBool b) \<and> \<not> has_valid_widget_state JNull"
  by (cases v) simp_all

theorem has_valid_widget_state_witness:
  "has_valid_widget_state (JDict [(''state'', JNull)]) \<and>
   \<not> has_valid_widget_state (JDict [(''foo'', JInt 1)]) \<and>
   \<not> has_valid_widget_state (JList [JStr ''state''])"
  using has_valid_widget_state_iff [of "JDict [(''state'', JNull)]"]
    has_valid_widget_state_iff [of "JDict [(''foo'', JInt 1)]"]
  by simp

section \<open>One owner: what the removal block does\<close>

lemma map_dict_put:
  "map_of kvs k = Some v0 \<Longrightarrow> F (k, v) = F (k, v0) \<Longrightarrow> map F (dict_put k v kvs) = map F kvs"
  by (induction kvs) (auto split: if_splits)

lemma rmw_quiet_settled:
  assumes "remove_malformed_widgets owner = Inr (owner, False)"
  shows "widgets_settled owner"
proof (cases owner)
  case (JDict kvs)
  show ?thesis
  proof (cases "map_of kvs ''metadata''")
    case None
    with JDict show ?thesis by (simp add: widgets_settled_def metadata_widgets_def)
  next
    case (Some md)
    show ?thesis
    proof (cases md)
      case md: (JDict m)
      with assms JDict Some show ?thesis
        by (cases "map_of m ''widgets''")
           (simp_all add: rmw_dict bindE_def key_in_iff widgets_settled_def metadata_widgets_def
              split: if_splits)
    qed (use JDict Some in \<open>simp_all add: widgets_settled_def metadata_widgets_def\<close>)
  qed
qed (simp_all add: widgets_settled_def metadata_widgets_def)

lemma rmw_removed_quiet:
  assumes "map_of kvs ''metadata'' = Some (JDict md)"
  shows "remove_malformed_widgets
           (JDict (dict_put ''metadata'' (JDict (filter (\<lambda>kv. fst kv \<noteq> ''widgets'') md)) kvs)) =
         Inr (JDict (dict_put ''metadata'' (JDict (filter (\<lambda>kv. fst kv \<noteq> ''widgets'') md)) kvs), False)"
proof -
  have "py_in ''widgets'' (JDict (filter (\<lambda>kv. fst kv \<noteq> ''widgets'') md)) = Inr False"
    by auto
  then show ?thesis
    by (simp add: rmw_dict map_of_dict_put bindE_def del: py_in.simps)
qed

lemma rmw_idem:
  assumes "remove_malformed_widgets owner = Inr (owner', r)"
  shows "remove_malformed_widgets owner' = Inr (owner', False)"
proof (cases r)
  case False
  with assms rmw_unchanged[of owner owner'] show ?thesis by simp
next
  case True
  with assms rmw_removed[of owner owner'] show ?thesis
    by (auto simp: rmw_removed_quiet)
qed

lemma rmw_settled:
  assumes "remove_malformed_widgets owner = Inr (owner', r)"
  shows "widgets_settled owner'"
  using rmw_idem[OF assms] by (rule rmw_quiet_settled)

lemma rmw_flag:
  assumes "remove_malformed_widgets owner = Inr (owner', r)"
  shows "r \<longleftrightarrow> \<not> widgets_settled owner"
proof (cases r)
  case False
  with assms rmw_unchanged[of owner owner'] rmw_quiet_settled[of owner] show ?thesis by simp
next
  case True
  with assms rmw_removed[of owner owner'] show ?thesis
    by (auto simp: widgets_settled_def metadata_widgets_def)
qed

lemma rmw_kept_or_removed:
  assumes "remove_malformed_widgets owner = Inr (owner', r)"
  shows "kept_or_removed owner owner'"
proof (cases r)
  case False
  with assms rmw_unchanged[of owner owner'] show ?thesis by (simp add: kept_or_removed_def)
next
  case True
  with assms rmw_removed[of owner owner'] show ?thesis
    by (auto simp: kept_or_removed_def metadata_widgets_def map_of_dict_put map_of_filter_other)
qed

lemma rmw_valid_block_kept:
  assumes "remove_malformed_widgets owner = Inr (owner', r)"
  shows "valid_block_kept owner owner'"
proof (cases r)
  case False
  with assms rmw_unchanged[of owner owner'] show ?thesis
    by (simp add: valid_block_kept_def split: option.splits)
next
  case True
  with assms rmw_removed[of owner owner'] show ?thesis
    by (auto simp: valid_block_kept_def metadata_widgets_def)
qed

lemma rmw_without:
  assumes "remove_malformed_widgets owner = Inr (owner', r)"
  shows "without_metadata_widgets owner' = without_metadata_widgets owner"
proof (cases r)
  case False
  with assms rmw_unchanged[of owner owner'] show ?thesis by simp
next
  case True
  with assms rmw_removed[of owner owner'] show ?thesis
    by (auto intro!: map_dict_put)
qed

lemma rmw_shaped:
  assumes "metadata_shaped owner"
  shows "\<exists>owner'. remove_malformed_widgets owner = Inr (owner', \<not> widgets_settled owner) \<and>
           metadata_shaped owner'"
proof -
  from assms obtain kvs where o: "owner = JDict kvs"
    by (cases owner) (simp_all add: metadata_shaped_def)
  show ?thesis
  proof (cases "map_of kvs ''metadata''")
    case None
    with o assms show ?thesis
      by (simp add: rmw_dict widgets_settled_def metadata_widgets_def)
  next
    case (Some md)
    with o assms obtain m where m: "md = JDict m"
      by (cases md) (simp_all add: metadata_shaped_def)
    show ?thesis
    proof (cases "map_of m ''widgets''")
      case None
      with o Some m assms show ?thesis
        by (simp add: rmw_dict widgets_settled_def metadata_widgets_def bindE_def key_in_iff)
    next
      case w: (Some w)
      with o Some m assms show ?thesis
        by (simp add: rmw_dict widgets_settled_def metadata_widgets_def bindE_def key_in_iff
              metadata_shaped_def map_of_dict_put)
    qed
  qed
qed

section \<open>The loop over the cells\<close>

lemma fix_cells_steps:
  "fix_cells i cells ch out = Inr (cells', ch', out') \<Longrightarrow>
   list_all2 (\<lambda>c c'. \<exists>r. remove_malformed_widgets c = Inr (c', r)) cells cells'"
proof (induction cells arbitrary: i ch out cells')
  case Nil
  then show ?case by simp
next
  case (Cons c cs)
  from Cons.prems obtain c' r where c: "remove_malformed_widgets c = Inr (c', r)"
    by (cases "remove_malformed_widgets c") auto
  let ?out = "if r then out @ [''Removing malformed widgets metadata from cell '' @ string_of_nat i] else out"
  from Cons.prems c obtain cs' where
    cs: "fix_cells (Suc i) cs (ch \<or> r) ?out = Inr (cs', ch', out')" and eq: "cells' = c' # cs'"
    by (cases "fix_cells (Suc i) cs (ch \<or> r) ?out") auto
  from Cons.IH[OF cs] c eq show ?case by auto
qed

lemma fix_cells_flag:
  "fix_cells i cells ch out = Inr (cells', ch', out') \<Longrightarrow>
   ch' \<longleftrightarrow> ch \<or> \<not> list_all widgets_settled cells"
proof (induction cells arbitrary: i ch out cells')
  case Nil
  then show ?case by simp
next
  case (Cons c cs)
  from Cons.prems obtain c' r where c: "remove_malformed_widgets c = Inr (c', r)"
    by (cases "remove_malformed_widgets c") auto
  let ?out = "if r then out @ [''Removing malformed widgets metadata from cell '' @ string_of_nat i] else out"
  from Cons.prems c obtain cs' where
    cs: "fix_cells (Suc i) cs (ch \<or> r) ?out = Inr (cs', ch', out')"
    by (cases "fix_cells (Suc i) cs (ch \<or> r) ?out") auto
  from Cons.IH[OF cs] rmw_flag[OF c] show ?case by auto
qed

lemma fix_cells_quiet:
  "list_all (\<lambda>c. remove_malformed_widgets c = Inr (c, False)) cells \<Longrightarrow>
   fix_cells i cells ch out = Inr (cells, ch, out)"
  by (induction cells arbitrary: i) simp_all

lemma fix_cells_unchanged:
  "fix_cells i cells ch out = Inr (cells', False, out') \<Longrightarrow> cells' = cells \<and> out' = out \<and> \<not> ch"
proof (induction cells arbitrary: i ch out cells')
  case Nil
  then show ?case by simp
next
  case (Cons c cs)
  from Cons.prems obtain c' r where c: "remove_malformed_widgets c = Inr (c', r)"
    by (cases "remove_malformed_widgets c") auto
  let ?out = "if r then out @ [''Removing malformed widgets metadata from cell '' @ string_of_nat i] else out"
  from Cons.prems c obtain cs' where
    cs: "fix_cells (Suc i) cs (ch \<or> r) ?out = Inr (cs', False, out')" and eq: "cells' = c' # cs'"
    by (cases "fix_cells (Suc i) cs (ch \<or> r) ?out") auto
  from Cons.IH[OF cs] have *: "cs' = cs" "out' = ?out" "\<not> ch" "\<not> r" by auto
  with c rmw_unchanged[of c c'] eq show ?case by simp
qed

lemma fix_cells_shaped:
  "list_all metadata_shaped cells \<Longrightarrow>
   \<exists>cells' ch' out'. fix_cells i cells ch out = Inr (cells', ch', out') \<and>
      list_all metadata_shaped cells'"
proof (induction cells arbitrary: i ch out)
  case Nil
  then show ?case by simp
next
  case (Cons c cs)
  from Cons.prems have "metadata_shaped c" by simp
  from rmw_shaped[OF this]
  obtain c' where c: "remove_malformed_widgets c = Inr (c', \<not> widgets_settled c)"
     and c': "metadata_shaped c'"
    by blast
  let ?r = "\<not> widgets_settled c"
  let ?out = "if ?r then out @ [''Removing malformed widgets metadata from cell '' @ string_of_nat i] else out"
  from Cons.prems have "list_all metadata_shaped cs" by simp
  from Cons.IH[OF this, of "Suc i" "ch \<or> ?r" ?out] obtain cs' ch' out' where
    "fix_cells (Suc i) cs (ch \<or> ?r) ?out = Inr (cs', ch', out')" "list_all metadata_shaped cs'"
    by blast
  with c c' show ?case by simp
qed

lemma steps_idem:
  "list_all2 (\<lambda>c c'. \<exists>r. remove_malformed_widgets c = Inr (c', r)) cells cells' \<Longrightarrow>
   list_all (\<lambda>c. remove_malformed_widgets c = Inr (c, False)) cells'"
  by (induction rule: list_all2_induct) (auto dest: rmw_idem)

lemma steps_settled:
  "list_all2 (\<lambda>c c'. \<exists>r. remove_malformed_widgets c = Inr (c', r)) cells cells' \<Longrightarrow>
   list_all widgets_settled cells'"
  by (induction rule: list_all2_induct) (auto dest: rmw_settled)

lemma steps_kept_or_removed:
  "list_all2 (\<lambda>c c'. \<exists>r. remove_malformed_widgets c = Inr (c', r)) cells cells' \<Longrightarrow>
   list_all2 kept_or_removed cells cells'"
  by (induction rule: list_all2_induct) (auto dest: rmw_kept_or_removed)

lemma steps_valid_block_kept:
  "list_all2 (\<lambda>c c'. \<exists>r. remove_malformed_widgets c = Inr (c', r)) cells cells' \<Longrightarrow>
   list_all2 valid_block_kept cells cells'"
  by (induction rule: list_all2_induct) (auto dest: rmw_valid_block_kept)

lemma steps_without:
  "list_all2 (\<lambda>c c'. \<exists>r. remove_malformed_widgets c = Inr (c', r)) cells cells' \<Longrightarrow>
   map without_metadata_widgets cells' = map without_metadata_widgets cells"
  by (induction rule: list_all2_induct) (auto dest: rmw_without)

lemma steps_strings:
  "list_all2 (\<lambda>c c'. \<exists>r. remove_malformed_widgets c = Inr (c', r)) (map JStr ss) cells' \<Longrightarrow>
   cells' = map JStr ss"
proof (induction ss arbitrary: cells')
  case Nil
  then show ?case by simp
next
  case (Cons s ss)
  then obtain c' cs' r where "cells' = c' # cs'" "remove_malformed_widgets (JStr s) = Inr (c', r)"
    "list_all2 (\<lambda>c c'. \<exists>r. remove_malformed_widgets c = Inr (c', r)) (map JStr ss) cs'"
    by (auto simp: list_all2_Cons1)
  with Cons.IH[of cs'] rmw_not_dict[of "JStr s" c' r] show ?case by simp
qed

section \<open>The two passes together\<close>

lemma rmw_dict_result:
  assumes "remove_malformed_widgets (JDict kvs) = Inr (x, r)"
  shows "\<exists>kvs1. x = JDict kvs1 \<and> map_of kvs1 ''cells'' = map_of kvs ''cells''"
proof (cases r)
  case False
  with assms rmw_unchanged[of "JDict kvs" x] show ?thesis by simp
next
  case True
  with assms rmw_removed[of "JDict kvs" x] show ?thesis
    by (auto simp: map_of_dict_put)
qed

lemma process_dict:
  "process_notebook (JDict kvs) =
     (case remove_malformed_widgets (JDict kvs) of
        Inl e \<Rightarrow> Inl (e, [])
      | Inr (nb1, r) \<Rightarrow>
          (case map_of kvs ''cells'' of
             None \<Rightarrow> Inr (nb1, r, level_note r)
           | Some cs \<Rightarrow>
               (case py_iter cs of
                  Inl e \<Rightarrow> Inl (e, level_note r)
                | Inr elems \<Rightarrow>
                    (case fix_cells 0 elems r (level_note r) of
                       Inl x \<Rightarrow> Inl x
                     | Inr (elems', ch, out) \<Rightarrow>
                         Inr (case cs of
                                JList xs \<Rightarrow> mutated_at nb1 ''cells'' (JList elems')
                              | _ \<Rightarrow> nb1, ch, out)))))"
proof (cases "remove_malformed_widgets (JDict kvs)")
  case (Inl e)
  then show ?thesis by (simp add: process_notebook_def)
next
  case (Inr p)
  obtain nb1 r where p: "p = (nb1, r)" by (cases p)
  with Inr rmw_dict_result[of kvs nb1 r] obtain kvs1 where
    nb1: "nb1 = JDict kvs1" and c: "map_of kvs1 ''cells'' = map_of kvs ''cells''" by auto
  show ?thesis
  proof (cases "map_of kvs ''cells''")
    case None
    with c have "''cells'' \<notin> fst ` set kvs1" by (simp add: key_in_iff)
    with Inr p nb1 None show ?thesis by (simp add: process_notebook_def)
  next
    case (Some cs)
    with c have "''cells'' \<in> fst ` set kvs1" by (simp add: key_in_iff)
    with Inr p nb1 Some c show ?thesis
      by (simp add: process_notebook_def bindE_def split: sum.splits)
  qed
qed

lemma process_not_dict:
  assumes "\<And>kvs. nb \<noteq> JDict kvs" "process_notebook nb = Inr (nb', ch, out)"
  shows "nb' = nb \<and> \<not> ch \<and> out = []"
proof (cases nb)
  case (JDict kvs)
  with assms(1) show ?thesis by blast
qed (use assms(2) in \<open>simp_all add: process_notebook_def remove_malformed_widgets_def bindE_def
        split: if_splits bool.splits\<close>)

lemma py_iter_strings:
  assumes "py_iter cs = Inr elems" "\<And>xs. cs \<noteq> JList xs"
  shows "\<exists>ss. elems = map JStr ss"
proof (cases cs)
  case (JDict kvs)
  with assms(1) have "elems = map JStr (map fst kvs)" by auto
  then show ?thesis ..
next
  case (JStr s)
  with assms(1) have "elems = map JStr (map (\<lambda>c. [c]) s)" by auto
  then show ?thesis ..
next
  case (JList xs)
  with assms(2) show ?thesis by blast
qed (use assms(1) in simp_all)

lemma process_dictE:
  assumes "process_notebook (JDict kvs) = Inr (nb', ch, out)"
  obtains
    (no_cells) kvs1 where
      "remove_malformed_widgets (JDict kvs) = Inr (JDict kvs1, ch)"
      "map_of kvs ''cells'' = None" "map_of kvs1 ''cells'' = None"
      "nb' = JDict kvs1" "out = level_note ch"
  | (cell_list) kvs1 r cells cells' where
      "remove_malformed_widgets (JDict kvs) = Inr (JDict kvs1, r)"
      "map_of kvs ''cells'' = Some (JList cells)" "map_of kvs1 ''cells'' = Some (JList cells)"
      "fix_cells 0 cells r (level_note r) = Inr (cells', ch, out)"
      "nb' = JDict (dict_put ''cells'' (JList cells') kvs1)"
  | (strings) kvs1 cs ss where
      "remove_malformed_widgets (JDict kvs) = Inr (JDict kvs1, ch)"
      "map_of kvs ''cells'' = Some cs" "map_of kvs1 ''cells'' = Some cs"
      "\<And>xs. cs \<noteq> JList xs" "py_iter cs = Inr (map JStr ss)"
      "fix_cells 0 (map JStr ss) ch (level_note ch) = Inr (map JStr ss, ch, out)"
      "nb' = JDict kvs1"
proof -
  from assms obtain nb1 r where rm: "remove_malformed_widgets (JDict kvs) = Inr (nb1, r)"
    by (cases "remove_malformed_widgets (JDict kvs)") (auto simp: process_dict)
  with rmw_dict_result[of kvs nb1 r] obtain kvs1 where
    nb1: "nb1 = JDict kvs1" and c: "map_of kvs1 ''cells'' = map_of kvs ''cells''" by auto
  show ?thesis
  proof (cases "map_of kvs ''cells''")
    case None
    with assms rm nb1 c show ?thesis by (intro no_cells[of kvs1]) (auto simp: process_dict)
  next
    case (Some cs)
    with assms rm obtain elems where it: "py_iter cs = Inr elems"
      by (cases "py_iter cs") (auto simp: process_dict)
    with assms rm Some obtain elems' where
      fc: "fix_cells 0 elems r (level_note r) = Inr (elems', ch, out)" and
      res: "nb' = (case cs of JList xs \<Rightarrow> mutated_at nb1 ''cells'' (JList elems') | _ \<Rightarrow> nb1)"
      by (cases "fix_cells 0 elems r (level_note r)") (auto simp: process_dict)
    show ?thesis
    proof (cases "\<exists>xs. cs = JList xs")
      case True
      then obtain xs where xs: "cs = JList xs" ..
      with it have "elems = xs" by simp
      with xs rm nb1 c Some fc res show ?thesis
        by (intro cell_list[of kvs1 r xs elems']) auto
    next
      case False
      then have nl: "\<And>xs. cs \<noteq> JList xs" by blast
      from py_iter_strings[OF it nl] obtain ss where ss: "elems = map JStr ss" ..
      from fix_cells_steps[OF fc] ss have e': "elems' = map JStr ss"
        by (auto dest: steps_strings)
      have "list_all widgets_settled (map JStr ss)"
        by (induction ss) (simp_all add: widgets_settled_def metadata_widgets_def)
      with fix_cells_flag[OF fc] ss have chr: "ch = r" by simp
      from False res have "nb' = nb1" by (cases cs) simp_all
      with rm nb1 c Some nl it ss fc e' chr show ?thesis
        by (intro strings[of kvs1 cs ss]) auto
    qed
  qed
qed

lemma rmw_skeleton:
  assumes "remove_malformed_widgets owner = Inr (owner', r)"
  shows "skeleton owner' = skeleton owner"
proof (cases r)
  case False
  with assms rmw_unchanged[of owner owner'] show ?thesis by simp
next
  case True
  with assms rmw_removed[of owner owner'] show ?thesis
    by (auto intro!: map_dict_put)
qed

lemma rmw_quiet_cong:
  assumes "remove_malformed_widgets (JDict kvs1) = Inr (JDict kvs1, False)"
    "map_of kvs2 ''metadata'' = map_of kvs1 ''metadata''"
  shows "remove_malformed_widgets (JDict kvs2) = Inr (JDict kvs2, False)"
proof (cases "map_of kvs1 ''metadata''")
  case None
  with assms(2) show ?thesis by (simp add: rmw_dict)
next
  case (Some md)
  with assms show ?thesis
    by (simp add: rmw_dict bindE_def split: sum.splits if_splits)
qed

lemma metadata_widgets_put_cells:
  "metadata_widgets (JDict (dict_put ''cells'' v kvs)) = metadata_widgets (JDict kvs)"
  by (simp add: metadata_widgets_def map_of_dict_put)

lemma cells_of_put_cells: "cells_of (JDict (dict_put ''cells'' (JList cs) kvs)) = cs"
  by (simp add: cells_of_def map_of_dict_put)

lemma skeleton_put_cells:
  assumes "map_of kvs ''cells'' = Some (JList cs)"
    "map without_metadata_widgets cs' = map without_metadata_widgets cs"
  shows "skeleton (JDict (dict_put ''cells'' (JList cs') kvs)) = skeleton (JDict kvs)"
  using assms by (auto intro!: map_dict_put)

lemma cells_of_not_list:
  assumes "map_of kvs ''cells'' = Some cs" "\<And>xs. cs \<noteq> JList xs"
  shows "cells_of (JDict kvs) = []"
proof (cases cs)
  case (JList xs)
  with assms(2) show ?thesis by blast
qed (use assms(1) in \<open>simp_all add: cells_of_def\<close>)

lemma process_settled:
  assumes "process_notebook nb = Inr (nb', ch, out)"
  shows "no_malformed_widgets nb'"
proof (cases "\<exists>kvs. nb = JDict kvs")
  case False
  with process_not_dict[OF _ assms] have "nb' = nb" by blast
  with False show ?thesis
    by (cases nb) (simp_all add: no_malformed_widgets_def widgets_settled_def metadata_widgets_def cells_of_def)
next
  case True
  then obtain kvs where nb: "nb = JDict kvs" ..
  from assms[unfolded nb] show ?thesis
  proof (cases rule: process_dictE)
    case (no_cells kvs1)
    with rmw_settled[OF no_cells(1)] show ?thesis
      by (simp add: no_malformed_widgets_def cells_of_def)
  next
    case (cell_list kvs1 r cells cells')
    from rmw_settled[OF cell_list(1)] steps_settled[OF fix_cells_steps[OF cell_list(4)]] cell_list(5)
    show ?thesis
      by (simp add: no_malformed_widgets_def cells_of_put_cells widgets_settled_def
            metadata_widgets_put_cells)
  next
    case (strings kvs1 cs ss)
    from cells_of_not_list[OF strings(3,4)] have "cells_of (JDict kvs1) = []" .
    with rmw_settled[OF strings(1)] strings(7) show ?thesis
      by (simp add: no_malformed_widgets_def)
  qed
qed

lemma process_only_removed:
  assumes "process_notebook nb = Inr (nb', ch, out)"
  shows "widgets_only_removed nb nb'"
proof (cases "\<exists>kvs. nb = JDict kvs")
  case False
  with process_not_dict[OF _ assms] have "nb' = nb" by blast
  then show ?thesis
    by (simp add: widgets_only_removed_def kept_or_removed_def list_all2_same)
next
  case True
  then obtain kvs where nb: "nb = JDict kvs" ..
  from assms[unfolded nb] show ?thesis
  proof (cases rule: process_dictE)
    case (no_cells kvs1)
    with rmw_kept_or_removed[OF no_cells(1)] nb show ?thesis
      by (simp add: widgets_only_removed_def cells_of_def)
  next
    case (cell_list kvs1 r cells cells')
    from rmw_kept_or_removed[OF cell_list(1)]
      steps_kept_or_removed[OF fix_cells_steps[OF cell_list(4)]] cell_list(2,5) nb
    show ?thesis
      by (simp add: widgets_only_removed_def cells_of_put_cells kept_or_removed_def
            metadata_widgets_put_cells) (simp add: cells_of_def)
  next
    case (strings kvs1 cs ss)
    from cells_of_not_list[OF strings(3,4)] cells_of_not_list[OF strings(2,4)]
    have "cells_of (JDict kvs1) = []" "cells_of (JDict kvs) = []" .
    with rmw_kept_or_removed[OF strings(1)] strings(7) nb show ?thesis
      by (simp add: widgets_only_removed_def)
  qed
qed

lemma process_valid_kept:
  assumes "process_notebook nb = Inr (nb', ch, out)"
  shows "(\<forall>w. metadata_widgets nb = Some w \<and> has_valid_widget_state w \<longrightarrow>
            metadata_widgets nb' = Some w) \<and>
         list_all2 valid_block_kept (cells_of nb) (cells_of nb')"
proof (cases "\<exists>kvs. nb = JDict kvs")
  case False
  with process_not_dict[OF _ assms] have "nb' = nb" by blast
  then show ?thesis
    by (simp add: valid_block_kept_def list_all2_same split: option.splits)
next
  case True
  then obtain kvs where nb: "nb = JDict kvs" ..
  have keep: "metadata_widgets (JDict kvs1) = Some w"
    if "remove_malformed_widgets (JDict kvs) = Inr (JDict kvs1, r)"
      "metadata_widgets (JDict kvs) = Some w" "has_valid_widget_state w" for kvs1 r w
    using rmw_valid_block_kept[OF that(1)] that(2,3) by (simp add: valid_block_kept_def)
  from assms[unfolded nb] show ?thesis
  proof (cases rule: process_dictE)
    case (no_cells kvs1)
    with keep[OF no_cells(1)] nb show ?thesis by (simp add: cells_of_def)
  next
    case (cell_list kvs1 r cells cells')
    from steps_valid_block_kept[OF fix_cells_steps[OF cell_list(4)]] cell_list(2)
    have "list_all2 valid_block_kept (cells_of (JDict kvs)) cells'" by (simp add: cells_of_def)
    with keep[OF cell_list(1)] cell_list(5) nb show ?thesis
      by (simp add: cells_of_put_cells metadata_widgets_put_cells)
  next
    case (strings kvs1 cs ss)
    from cells_of_not_list[OF strings(3,4)] cells_of_not_list[OF strings(2,4)]
    have "cells_of (JDict kvs1) = []" "cells_of (JDict kvs) = []" .
    with keep[OF strings(1)] strings(7) nb show ?thesis by simp
  qed
qed

lemma process_idem:
  assumes "process_notebook nb = Inr (nb', ch, out)"
  shows "process_notebook nb' = Inr (nb', False, [])"
proof (cases "\<exists>kvs. nb = JDict kvs")
  case False
  with process_not_dict[OF _ assms] have "nb' = nb" "\<not> ch" "out = []" by blast+
  with assms show ?thesis by simp
next
  case True
  then obtain kvs where nb: "nb = JDict kvs" ..
  from assms[unfolded nb] show ?thesis
  proof (cases rule: process_dictE)
    case (no_cells kvs1)
    with rmw_idem[OF no_cells(1)] show ?thesis by (simp add: process_dict)
  next
    case (cell_list kvs1 r cells cells')
    let ?kvs2 = "dict_put ''cells'' (JList cells') kvs1"
    have "remove_malformed_widgets (JDict ?kvs2) = Inr (JDict ?kvs2, False)"
      using rmw_idem[OF cell_list(1)] by (rule rmw_quiet_cong) (simp add: map_of_dict_put)
    moreover have "fix_cells 0 cells' False [] = Inr (cells', False, [])"
      using steps_idem[OF fix_cells_steps[OF cell_list(4)]] by (rule fix_cells_quiet)
    ultimately show ?thesis using cell_list(5)
      by (simp add: process_dict map_of_dict_put dict_put_twice)
  next
    case (strings kvs1 cs ss)
    have "fix_cells 0 (map JStr ss) False [] = Inr (map JStr ss, False, [])"
      using steps_idem[OF fix_cells_steps[OF strings(6)]] by (rule fix_cells_quiet)
    moreover from strings(4) have "(case cs of JList xs \<Rightarrow> a xs | _ \<Rightarrow> b) = b" for a and b :: json
      by (cases cs) auto
    ultimately show ?thesis using rmw_idem[OF strings(1)] strings(3,5,7)
      by (simp add: process_dict)
  qed
qed

lemma process_skeleton:
  assumes "process_notebook nb = Inr (nb', ch, out)"
  shows "skeleton nb' = skeleton nb"
proof (cases "\<exists>kvs. nb = JDict kvs")
  case False
  with process_not_dict[OF _ assms] show ?thesis by blast
next
  case True
  then obtain kvs where nb: "nb = JDict kvs" ..
  from assms[unfolded nb] show ?thesis
  proof (cases rule: process_dictE)
    case (no_cells kvs1)
    with rmw_skeleton[OF no_cells(1)] nb show ?thesis by simp
  next
    case (cell_list kvs1 r cells cells')
    from skeleton_put_cells[OF cell_list(3) steps_without[OF fix_cells_steps[OF cell_list(4)]]]
      rmw_skeleton[OF cell_list(1)] cell_list(5) nb
    show ?thesis by simp
  next
    case (strings kvs1 cs ss)
    with rmw_skeleton[OF strings(1)] nb show ?thesis by simp
  qed
qed

lemma process_unchanged:
  assumes "process_notebook nb = Inr (nb', False, out)"
  shows "nb' = nb \<and> out = []"
proof (cases "\<exists>kvs. nb = JDict kvs")
  case False
  with process_not_dict[OF _ assms] show ?thesis by blast
next
  case True
  then obtain kvs where nb: "nb = JDict kvs" ..
  from assms[unfolded nb] show ?thesis
  proof (cases rule: process_dictE)
    case (no_cells kvs1)
    with rmw_unchanged[OF no_cells(1)] nb show ?thesis by simp
  next
    case (cell_list kvs1 r cells cells')
    from fix_cells_unchanged[OF cell_list(4)] have *: "cells' = cells" "out = level_note r" "\<not> r"
      by simp_all
    with rmw_unchanged[of "JDict kvs" "JDict kvs1"] cell_list(1) have "kvs1 = kvs" by simp
    with * cell_list(2,5) nb show ?thesis by (simp add: dict_put_same)
  next
    case (strings kvs1 cs ss)
    from fix_cells_unchanged[OF strings(6)] have "out = []" by simp
    with rmw_unchanged[OF strings(1)] strings(7) nb show ?thesis by simp
  qed
qed

lemma process_flag:
  assumes "process_notebook nb = Inr (nb', ch, out)"
  shows "ch \<longleftrightarrow> \<not> no_malformed_widgets nb"
proof (cases "\<exists>kvs. nb = JDict kvs")
  case False
  with process_not_dict[OF _ assms] have "\<not> ch" by blast
  with False show ?thesis
    by (cases nb) (simp_all add: no_malformed_widgets_def widgets_settled_def metadata_widgets_def cells_of_def)
next
  case True
  then obtain kvs where nb: "nb = JDict kvs" ..
  from assms[unfolded nb] show ?thesis
  proof (cases rule: process_dictE)
    case (no_cells kvs1)
    with rmw_flag[OF no_cells(1)] nb show ?thesis
      by (simp add: no_malformed_widgets_def cells_of_def)
  next
    case (cell_list kvs1 r cells cells')
    from fix_cells_flag[OF cell_list(4)] rmw_flag[OF cell_list(1)] cell_list(2) nb
    show ?thesis by (simp add: no_malformed_widgets_def cells_of_def)
  next
    case (strings kvs1 cs ss)
    from cells_of_not_list[OF strings(2,4)] rmw_flag[OF strings(1)] nb
    show ?thesis by (simp add: no_malformed_widgets_def)
  qed
qed

lemma process_shaped:
  assumes "well_shaped nb"
  shows "\<exists>nb' out. process_notebook nb = Inr (nb', \<not> no_malformed_widgets nb, out)"
proof -
  from assms obtain kvs where nb: "nb = JDict kvs"
    by (cases nb) (simp_all add: well_shaped_def)
  from assms have "metadata_shaped nb" by (simp add: well_shaped_def)
  from rmw_shaped[OF this] nb obtain nb1 where
    rm: "remove_malformed_widgets (JDict kvs) = Inr (nb1, \<not> widgets_settled nb)" by auto
  have "\<exists>nb' ch out. process_notebook nb = Inr (nb', ch, out)"
  proof (cases "map_of kvs ''cells''")
    case None
    with rm nb show ?thesis by (simp add: process_dict)
  next
    case (Some cs)
    with assms nb obtain cells where cs: "cs = JList cells" and sh: "list_all metadata_shaped cells"
      by (cases cs) (simp_all add: well_shaped_def)
    from fix_cells_shaped[OF sh, of 0 "\<not> widgets_settled nb" "level_note (\<not> widgets_settled nb)"]
    obtain cells' ch' out' where
      "fix_cells 0 cells (\<not> widgets_settled nb) (level_note (\<not> widgets_settled nb)) = Inr (cells', ch', out')"
      by blast
    with rm nb Some cs show ?thesis by (simp add: process_dict)
  qed
  then obtain nb' ch out where p: "process_notebook nb = Inr (nb', ch, out)" by blast
  with process_flag[OF p] show ?thesis by auto
qed

section \<open>Runs of \<open>fix_notebook\<close>\<close>

lemma backup_path_differs: "backup_path_of e p \<noteq> p"
  by (simp add: backup_path_of_def)

lemma reached_iff:
  "lines_44_to_79 e p fs = Reached nb' ch out \<longleftrightarrow>
     fs p \<noteq> None \<and> (\<exists>nb. load_notebook e p fs = Loaded nb \<and> process_notebook nb = Inr (nb', ch, out))"
  by (auto simp: lines_44_to_79_def split: load_result.splits sum.splits)

lemma reachedI:
  "fs p = Some b \<Longrightarrow> load_notebook e p fs = Loaded nb \<Longrightarrow>
   process_notebook nb = Inr (nb', ch, out) \<Longrightarrow> lines_44_to_79 e p fs = Reached nb' ch out"
  by (simp add: reached_iff)

lemma returned_not_success:
  "lines_44_to_79 e p fs = Returned r \<Longrightarrow> outcome r \<noteq> Inr True"
  by (auto simp: lines_44_to_79_def split: load_result.splits sum.splits if_splits)

lemma save_fixed_ok:
  assumes "fs p = Some b" "copy_error e p (backup_path_of e p) = None"
    "write_error e p (fixed_text e nb') = None"
  shows "save_fixed e p fs nb' out =
     \<lparr>outcome = Inr True,
      files = fs(backup_path_of e p \<mapsto> b, p \<mapsto> fixed_text e nb'),
      printed = out @ [''Created backup: '' @ backup_path_of e p, ''Successfully fixed: '' @ p]\<rparr>"
  using assms by (simp add: save_fixed_def copy2_def write_file_def Let_def)

lemma save_fixed_success:
  assumes "outcome (save_fixed e p fs nb' out) = Inr True" "fs p = Some b"
  shows "copy_error e p (backup_path_of e p) = None \<and> write_error e p (fixed_text e nb') = None"
  using assms
  by (auto simp: save_fixed_def copy2_def write_file_def Let_def
      split: option.splits sum.splits prod.splits)

lemma fix_notebook_success:
  assumes "outcome (fix_notebook e p fs) = Inr True"
  shows "\<exists>b nb nb' ch out. fs p = Some b \<and> load_notebook e p fs = Loaded nb \<and>
           process_notebook nb = Inr (nb', ch, out) \<and>
           (if ch then files (fix_notebook e p fs) =
                         fs(backup_path_of e p \<mapsto> b, p \<mapsto> fixed_text e nb')
            else files (fix_notebook e p fs) = fs \<and> nb' = nb)"
proof (cases "lines_44_to_79 e p fs")
  case (Returned r)
  with assms returned_not_success[OF Returned] show ?thesis by (simp add: fix_notebook_def)
next
  case (Reached nb' ch out)
  then obtain b nb where b: "fs p = Some b" and l: "load_notebook e p fs = Loaded nb"
    and pr: "process_notebook nb = Inr (nb', ch, out)"
    by (auto simp: reached_iff)
  show ?thesis
  proof (cases ch)
    case True
    with assms Reached have "outcome (save_fixed e p fs nb' out) = Inr True"
      by (simp add: fix_notebook_def)
    from save_fixed_success[OF this b] have ok:
      "copy_error e p (backup_path_of e p) = None" "write_error e p (fixed_text e nb') = None"
      by simp_all
    from save_fixed_ok[of fs p b e nb' out, OF b ok] Reached True b l pr
    show ?thesis by (auto simp: fix_notebook_def)
  next
    case False
    with pr process_unchanged[of nb nb' out] have "nb' = nb" by simp
    with False Reached b l pr show ?thesis by (auto simp: fix_notebook_def)
  qed
qed

section \<open>The sample documents, evaluated\<close>

lemma process_malformed_doc:
  "process_notebook malformed_doc =
     Inr (repaired_doc, True, [''Removing malformed widgets metadata at notebook level''])"
  by (simp add: process_notebook_def remove_malformed_widgets_def bindE_def malformed_doc_def
      repaired_doc_def)

lemma process_valid_doc: "process_notebook valid_doc = Inr (valid_doc, False, [])"
  by (simp add: process_notebook_def remove_malformed_widgets_def bindE_def valid_doc_def)

lemma process_null_cells_doc:
  "process_notebook null_cells_doc =
     Inl (TypeError, [''Removing malformed widgets metadata at notebook level''])"
  by (simp add: process_notebook_def remove_malformed_widgets_def bindE_def null_cells_doc_def)

lemma process_null: "process_notebook JNull = Inl (TypeError, [])"
  by (simp add: process_notebook_def remove_malformed_widgets_def bindE_def)

lemma sample_load_simps:
  "sample_load malformed_text = Loaded malformed_doc"
  "sample_load (repaired_text @ [CHR 0x0A]) = Loaded repaired_doc"
  "sample_load valid_text = Loaded valid_doc"
  "sample_load null_cells_text = Loaded null_cells_doc"
  "sample_load ''null'' = Loaded JNull"
  "sample_load ''{'' = JSONDecodeError ''Expecting value: line 1 column 1 (char 0)''"
  by (simp_all add: sample_load_def malformed_text_def repaired_text_def valid_text_def
      null_cells_text_def)

lemma sample_env_simps:
  "now sample_env = ''20240101_120000''"
  "read_error sample_env p = None"
  "json_load sample_env = sample_load"
  "json_dumps sample_env = sample_dumps"
  "copy_error sample_env src dst = None"
  "write_error sample_env dst content = None"
  "parse_args sample_env = sample_parse_args"
  by (simp_all add: sample_env_def)

lemma sample_disk_simps:
  "sample_disk content ''nb.ipynb'' = Some content"
  "sample_disk content ''other.ipynb'' = None"
  by (simp_all add: sample_disk_def)

lemma load_sample:
  "read_error e ''nb.ipynb'' = None \<Longrightarrow>
   load_notebook e ''nb.ipynb'' (sample_disk content) = json_load e content"
  by (simp add: load_notebook_def sample_disk_def)

section \<open>No removal, no effect\<close>

lemma no_widgets_entry_settled: "no_widgets_entry nb \<Longrightarrow> no_malformed_widgets nb"
  by (simp add: no_widgets_entry_def no_malformed_widgets_def widgets_settled_def list_all_iff)

text \<open>
  C6. When the document read from the file has the shape of the data model and no
  \<open>metadata.widgets\<close> entry, at notebook level or in a cell, and more generally
  whenever the two passes finish without a removal, the run is a no-op: it returns
  success, the disk is exactly as before (the file is not written and no backup
  exists that did not exist before), and the only line printed is the notice that
  nothing malformed was found.
\<close>

theorem no_removal_is_noop:
  assumes "fs p = Some b" "load_notebook e p fs = Loaded nb"
    "well_shaped nb \<and> no_widgets_entry nb \<or>
     (\<exists>nb' out. process_notebook nb = Inr (nb', False, out))"
  shows "fix_notebook e p fs =
     \<lparr>outcome = Inr True, files = fs,
      printed = [''No malformed widget metadata found in: '' @ p]\<rparr>"
proof -
  from assms(3) obtain nb' out where pr: "process_notebook nb = Inr (nb', False, out)"
    using process_shaped[of nb] no_widgets_entry_settled[of nb] by auto
  from process_unchanged[OF pr] have "out = []" by simp
  with reachedI[OF assms(1,2) pr] show ?thesis by (simp add: fix_notebook_def)
qed

theorem no_removal_is_noop_witness:
  "fix_notebook sample_env ''nb.ipynb'' (sample_disk valid_text) =
     \<lparr>outcome = Inr True, files = sample_disk valid_text,
      printed = [''No malformed widget metadata found in: '' @ ''nb.ipynb'']\<rparr> \<and>
   fix_notebook sample_env ''nb.ipynb'' (sample_disk (repaired_text @ [CHR 0x0A])) =
     \<lparr>outcome = Inr True, files = sample_disk (repaired_text @ [CHR 0x0A]),
      printed = [''No malformed widget metadata found in: '' @ ''nb.ipynb'']\<rparr>"
proof -
  have l1: "load_notebook sample_env ''nb.ipynb'' (sample_disk valid_text) = Loaded valid_doc"
    by (simp add: load_sample sample_env_simps sample_load_simps)
  have h1: "well_shaped valid_doc \<and> no_widgets_entry valid_doc \<or>
     (\<exists>nb' out. process_notebook valid_doc = Inr (nb', False, out))"
    by (simp add: process_valid_doc)
  have l2: "load_notebook sample_env ''nb.ipynb'' (sample_disk (repaired_text @ [CHR 0x0A])) =
      Loaded repaired_doc"
    by (simp add: load_sample sample_env_simps sample_load_simps)
  have h2: "well_shaped repaired_doc \<and> no_widgets_entry repaired_doc \<or>
     (\<exists>nb' out. process_notebook repaired_doc = Inr (nb', False, out))"
    by (simp add: repaired_doc_def well_shaped_def metadata_shaped_def no_widgets_entry_def
        metadata_widgets_def cells_of_def)
  show ?thesis
    using no_removal_is_noop[OF sample_disk_simps(1) l1 h1]
      no_removal_is_noop[OF sample_disk_simps(1) l2 h2]
    by simp
qed

section \<open>A malformed notebook-level entry\<close>

text \<open>
  C2, as the code has it. When the document read from the file has the shape of the
  data model and a notebook-level \<open>metadata.widgets\<close> that is not a mapping with the
  key \<open>state\<close>, and the backup copy and the write both succeed, the run returns
  success, the file holds the serialised document without that entry, and the
  backup file holds the bytes the file had before the run.
\<close>

theorem malformed_entry_removed:
  assumes "fs p = Some b" "load_notebook e p fs = Loaded nb" "well_shaped nb"
    "metadata_widgets nb = Some w" "\<not> has_valid_widget_state w"
    "copy_error e p (backup_path_of e p) = None"
    "\<And>nb' out. process_notebook nb = Inr (nb', True, out) \<Longrightarrow>
       write_error e p (fixed_text e nb') = None"
  shows "\<exists>nb' out. process_notebook nb = Inr (nb', True, out) \<and>
           metadata_widgets nb' = None \<and>
           outcome (fix_notebook e p fs) = Inr True \<and>
           files (fix_notebook e p fs) p = Some (fixed_text e nb') \<and>
           files (fix_notebook e p fs) (backup_path_of e p) = Some b"
proof -
  from assms(4,5) have "\<not> no_malformed_widgets nb"
    by (simp add: no_malformed_widgets_def widgets_settled_def)
  with process_shaped[OF assms(3)] obtain nb' out where
    pr: "process_notebook nb = Inr (nb', True, out)" by auto
  from process_settled[OF pr] process_only_removed[OF pr] assms(4,5)
  have gone: "metadata_widgets nb' = None"
    by (auto simp: no_malformed_widgets_def widgets_settled_def widgets_only_removed_def
        kept_or_removed_def)
  from assms(7)[OF pr] have w: "write_error e p (fixed_text e nb') = None" .
  from reachedI[OF assms(1,2) pr] save_fixed_ok[of fs p b e nb' out, OF assms(1,6) w]
  have "fix_notebook e p fs =
     \<lparr>outcome = Inr True,
      files = fs(backup_path_of e p \<mapsto> b, p \<mapsto> fixed_text e nb'),
      printed = out @ [''Created backup: '' @ backup_path_of e p, ''Successfully fixed: '' @ p]\<rparr>"
    by (simp add: fix_notebook_def)
  with pr gone backup_path_differs[of e p] show ?thesis by auto
qed

theorem malformed_entry_removed_witness:
  "process_notebook malformed_doc =
     Inr (repaired_doc, True, [''Removing malformed widgets metadata at notebook level'']) \<and>
   outcome (fix_notebook sample_env ''nb.ipynb'' (sample_disk malformed_text)) = Inr True \<and>
   files (fix_notebook sample_env ''nb.ipynb'' (sample_disk malformed_text)) ''nb.ipynb'' =
     Some (repaired_text @ [CHR 0x0A]) \<and>
   files (fix_notebook sample_env ''nb.ipynb'' (sample_disk malformed_text))
     ''nb.ipynb.bak-20240101_120000'' = Some malformed_text"
proof -
  have l: "load_notebook sample_env ''nb.ipynb'' (sample_disk malformed_text) = Loaded malformed_doc"
    by (simp add: load_sample sample_env_simps sample_load_simps)
  have sh: "well_shaped malformed_doc"
    by (simp add: malformed_doc_def well_shaped_def metadata_shaped_def)
  have w: "metadata_widgets malformed_doc = Some (JDict [(''foo'', JInt 1)])"
    by (simp add: malformed_doc_def metadata_widgets_def)
  have nv: "\<not> has_valid_widget_state (JDict [(''foo'', JInt 1)])" by simp
  have c: "copy_error sample_env ''nb.ipynb'' (backup_path_of sample_env ''nb.ipynb'') = None"
    by (simp add: sample_env_simps)
  have wr: "write_error sample_env ''nb.ipynb'' (fixed_text sample_env nb') = None" for nb'
    by (simp add: sample_env_simps)
  from malformed_entry_removed[OF sample_disk_simps(1) l sh w nv c wr]
  show ?thesis
    by (simp add: process_malformed_doc fixed_text_def sample_env_simps sample_dumps_def
        backup_path_of_def)
qed

text \<open>
  The claim as written promises success for every such document. With the same
  document and a backup copy that fails, the run returns failure, the file is as it
  was and there is no backup.
\<close>

theorem malformed_entry_counterexample:
  "load_notebook (sample_env\<lparr>copy_error := \<lambda>src dst. Some denied\<rparr>) ''nb.ipynb''
      (sample_disk malformed_text) = Loaded malformed_doc \<and>
   metadata_widgets malformed_doc = Some (JDict [(''foo'', JInt 1)]) \<and>
   \<not> has_valid_widget_state (JDict [(''foo'', JInt 1)]) \<and>
   fix_notebook (sample_env\<lparr>copy_error := \<lambda>src dst. Some denied\<rparr>) ''nb.ipynb''
      (sample_disk malformed_text) =
     \<lparr>outcome = Inr False, files = sample_disk malformed_text,
      printed = [''Removing malformed widgets metadata at notebook level'',
                 ''Error creating backup: [Errno 13] Permission denied'']\<rparr>"
proof -
  have l: "load_notebook (sample_env\<lparr>copy_error := \<lambda>src dst. Some denied\<rparr>) ''nb.ipynb''
      (sample_disk malformed_text) = Loaded malformed_doc"
    by (simp add: load_sample sample_env_simps sample_load_simps)
  have w: "metadata_widgets malformed_doc = Some (JDict [(''foo'', JInt 1)])"
    by (simp add: malformed_doc_def metadata_widgets_def)
  have "lines_44_to_79 (sample_env\<lparr>copy_error := \<lambda>src dst. Some denied\<rparr>) ''nb.ipynb''
      (sample_disk malformed_text) =
      Reached repaired_doc True [''Removing malformed widgets metadata at notebook level'']"
    using reachedI[OF sample_disk_simps(1) l process_malformed_doc] .
  then show ?thesis using l w
    by (simp add: fix_notebook_def save_fixed_def copy2_def denied_def after_failure_def)
qed

section \<open>After a successful run\<close>

text \<open>
  C3. When \<open>fix_notebook\<close> returns success, the document it leaves (the one
  serialised into the file when something was removed, the unchanged one read from
  the file otherwise) has no \<open>metadata.widgets\<close> entry, at notebook level or in a
  cell, other than mappings with the key \<open>state\<close>; and every such entry of the
  result is the entry the input had at that place, so nothing was made up or
  changed, only removed.
\<close>

theorem success_leaves_no_malformed_widgets:
  assumes "outcome (fix_notebook e p fs) = Inr True"
  shows "\<exists>nb nb' ch out.
           load_notebook e p fs = Loaded nb \<and> process_notebook nb = Inr (nb', ch, out) \<and>
           no_malformed_widgets nb' \<and> widgets_only_removed nb nb' \<and>
           (if ch then files (fix_notebook e p fs) p = Some (fixed_text e nb')
            else files (fix_notebook e p fs) = fs \<and> nb' = nb)"
proof -
  from fix_notebook_success[OF assms] obtain b nb nb' ch out where
    l: "load_notebook e p fs = Loaded nb" and pr: "process_notebook nb = Inr (nb', ch, out)" and
    f: "if ch then files (fix_notebook e p fs) =
                     fs(backup_path_of e p \<mapsto> b, p \<mapsto> fixed_text e nb')
        else files (fix_notebook e p fs) = fs \<and> nb' = nb"
    by blast
  from f have "if ch then files (fix_notebook e p fs) p = Some (fixed_text e nb')
               else files (fix_notebook e p fs) = fs \<and> nb' = nb"
    by (simp split: if_splits)
  with l pr process_settled[OF pr] process_only_removed[OF pr] show ?thesis by blast
qed

theorem success_leaves_no_malformed_widgets_witness:
  "outcome (fix_notebook sample_env ''nb.ipynb'' (sample_disk malformed_text)) = Inr True \<and>
   no_malformed_widgets repaired_doc \<and> widgets_only_removed malformed_doc repaired_doc \<and>
   files (fix_notebook sample_env ''nb.ipynb'' (sample_disk malformed_text)) ''nb.ipynb'' =
     Some (fixed_text sample_env repaired_doc)"
proof -
  have l: "load_notebook sample_env ''nb.ipynb'' (sample_disk malformed_text) = Loaded malformed_doc"
    by (simp add: load_sample sample_env_simps sample_load_simps)
  have "lines_44_to_79 sample_env ''nb.ipynb'' (sample_disk malformed_text) =
      Reached repaired_doc True [''Removing malformed widgets metadata at notebook level'']"
    using reachedI[OF sample_disk_simps(1) l process_malformed_doc] .
  then have ok: "outcome (fix_notebook sample_env ''nb.ipynb'' (sample_disk malformed_text)) = Inr True"
    by (simp add: fix_notebook_def save_fixed_def copy2_def write_file_def sample_env_simps
        sample_disk_simps Let_def)
  from success_leaves_no_malformed_widgets[OF ok] ok show ?thesis
    by (auto simp: l process_malformed_doc)
qed

section \<open>Everything but the widget metadata is left as it was\<close>

text \<open>
  C8. When \<open>fix_notebook\<close> writes the file, what it writes is the serialisation of a
  document that differs from the document read only in \<open>metadata.widgets\<close> entries
  of the notebook and of its cells: with those entries set aside, both documents
  have the same keys in the same order with the same values, and the same cells in
  the same order. The text itself comes from \<open>json.dump\<close>, which receives that
  document.
\<close>

theorem written_document_keeps_the_rest:
  assumes "fs p = Some b" "load_notebook e p fs = Loaded nb"
    "process_notebook nb = Inr (nb', True, out)"
    "copy_error e p (backup_path_of e p) = None"
    "write_error e p (fixed_text e nb') = None"
  shows "files (fix_notebook e p fs) p = Some (json_dumps e nb' @ [CHR 0x0A]) \<and>
         skeleton nb' = skeleton nb"
proof -
  from reachedI[OF assms(1,2,3)] save_fixed_ok[of fs p b e nb' out, OF assms(1,4,5)]
  have "files (fix_notebook e p fs) p = Some (fixed_text e nb')"
    by (simp add: fix_notebook_def)
  with process_skeleton[OF assms(3)] show ?thesis by (simp add: fixed_text_def)
qed

theorem written_document_keeps_the_rest_witness:
  "files (fix_notebook sample_env ''nb.ipynb'' (sample_disk malformed_text)) ''nb.ipynb'' =
     Some (json_dumps sample_env repaired_doc @ [CHR 0x0A]) \<and>
   skeleton repaired_doc = skeleton malformed_doc"
proof -
  have l: "load_notebook sample_env ''nb.ipynb'' (sample_disk malformed_text) = Loaded malformed_doc"
    by (simp add: load_sample sample_env_simps sample_load_simps)
  have c: "copy_error sample_env ''nb.ipynb'' (backup_path_of sample_env ''nb.ipynb'') = None"
    by (simp add: sample_env_simps)
  have wr: "write_error sample_env ''nb.ipynb'' (fixed_text sample_env repaired_doc) = None"
    by (simp add: sample_env_simps)
  from written_document_keeps_the_rest[OF sample_disk_simps(1) l process_malformed_doc c wr]
  show ?thesis .
qed

section \<open>Backup before write, restore after a failed write\<close>

text \<open>
  C7. In a run where something was removed: if the backup copy fails, the run
  returns failure and the notebook file still has its original bytes (nothing was
  written to it); if the copy succeeds and the write fails, the run returns failure,
  the backup holds the original bytes, and the restore from the backup is attempted:
  when it succeeds the file has its original bytes again and the last line printed
  says so, when it fails the last line printed reports the restore error.
\<close>

theorem backup_then_write_then_restore:
  assumes "fs p = Some b" "load_notebook e p fs = Loaded nb"
    "process_notebook nb = Inr (nb', True, out)"
  shows "(\<forall>f. copy_error e p (backup_path_of e p) = Some f \<longrightarrow>
            outcome (fix_notebook e p fs) = Inr False \<and>
            files (fix_notebook e p fs) p = Some b \<and>
            printed (fix_notebook e p fs) = out @ [''Error creating backup: '' @ reason f]) \<and>
         (\<forall>f. copy_error e p (backup_path_of e p) = None \<and>
              write_error e p (fixed_text e nb') = Some f \<longrightarrow>
            outcome (fix_notebook e p fs) = Inr False \<and>
            files (fix_notebook e p fs) (backup_path_of e p) = Some b \<and>
            (copy_error e (backup_path_of e p) p = None \<longrightarrow>
               files (fix_notebook e p fs) p = Some b \<and>
               printed (fix_notebook e p fs) =
                 out @ [''Created backup: '' @ backup_path_of e p,
                        ''Error writing fixed notebook: '' @ reason f,
                        ''Restored from backup due to write error'']) \<and>
            (\<forall>g. copy_error e (backup_path_of e p) p = Some g \<longrightarrow>
               printed (fix_notebook e p fs) =
                 out @ [''Created backup: '' @ backup_path_of e p,
                        ''Error writing fixed notebook: '' @ reason f,
                        ''Error restoring backup: '' @ reason g]))"
proof -
  have fx: "fix_notebook e p fs = save_fixed e p fs nb' out"
    using reachedI[OF assms] by (simp add: fix_notebook_def)
  have d: "backup_path_of e p \<noteq> p" "p \<noteq> backup_path_of e p"
    using backup_path_differs[of e p] by auto
  have 1: "outcome (save_fixed e p fs nb' out) = Inr False \<and>
      files (save_fixed e p fs nb' out) p = Some b \<and>
      printed (save_fixed e p fs nb' out) = out @ [''Error creating backup: '' @ reason f]"
    if "copy_error e p (backup_path_of e p) = Some f" for f
    using that assms(1) d
    by (simp add: save_fixed_def copy2_def after_failure_def Let_def split: option.splits)
  have 2: "outcome (save_fixed e p fs nb' out) = Inr False \<and>
      files (save_fixed e p fs nb' out) (backup_path_of e p) = Some b"
    if "copy_error e p (backup_path_of e p) = None"
      "write_error e p (fixed_text e nb') = Some f" for f
    using that assms(1) d
    by (simp add: save_fixed_def copy2_def write_file_def after_failure_def Let_def
        split: option.splits)
  have 3: "files (save_fixed e p fs nb' out) p = Some b \<and>
      printed (save_fixed e p fs nb' out) =
        out @ [''Created backup: '' @ backup_path_of e p,
               ''Error writing fixed notebook: '' @ reason f,
               ''Restored from backup due to write error'']"
    if "copy_error e p (backup_path_of e p) = None"
      "write_error e p (fixed_text e nb') = Some f"
      "copy_error e (backup_path_of e p) p = None" for f
    using that assms(1) d
    by (simp add: save_fixed_def copy2_def write_file_def after_failure_def Let_def
        split: option.splits)
  have 4: "printed (save_fixed e p fs nb' out) =
        out @ [''Created backup: '' @ backup_path_of e p,
               ''Error writing fixed notebook: '' @ reason f,
               ''Error restoring backup: '' @ reason g]"
    if "copy_error e p (backup_path_of e p) = None"
      "write_error e p (fixed_text e nb') = Some f"
      "copy_error e (backup_path_of e p) p = Some g" for f g
    using that assms(1) d
    by (simp add: save_fixed_def copy2_def write_file_def after_failure_def Let_def
        split: option.splits)
  from 1 2 3 4 show ?thesis unfolding fx by blast
qed

theorem backup_then_write_then_restore_witness:
  "fix_notebook (sample_env\<lparr>write_error := \<lambda>dst content. Some disk_full\<rparr>) ''nb.ipynb''
      (sample_disk malformed_text) =
     \<lparr>outcome = Inr False,
      files = [''nb.ipynb'' \<mapsto> malformed_text, ''nb.ipynb.bak-20240101_120000'' \<mapsto> malformed_text],
      printed = [''Removing malformed widgets metadata at notebook level'',
                 ''Created backup: nb.ipynb.bak-20240101_120000'',
                 ''Error writing fixed notebook: [Errno 28] No space left on device'',
                 ''Restored from backup due to write error'']\<rparr> \<and>
   outcome (fix_notebook (sample_env\<lparr>copy_error := \<lambda>src dst. Some denied\<rparr>) ''nb.ipynb''
      (sample_disk malformed_text)) = Inr False \<and>
   files (fix_notebook (sample_env\<lparr>copy_error := \<lambda>src dst. Some denied\<rparr>) ''nb.ipynb''
      (sample_disk malformed_text)) ''nb.ipynb'' = Some malformed_text"
proof -
  let ?e = "sample_env\<lparr>write_error := \<lambda>dst content. Some disk_full\<rparr>"
  let ?e' = "sample_env\<lparr>copy_error := \<lambda>src dst. Some denied\<rparr>"
  have l: "load_notebook ?e ''nb.ipynb'' (sample_disk malformed_text) = Loaded malformed_doc"
    by (simp add: load_sample sample_env_simps sample_load_simps)
  have l': "load_notebook ?e' ''nb.ipynb'' (sample_disk malformed_text) = Loaded malformed_doc"
    by (simp add: load_sample sample_env_simps sample_load_simps)
  note a = backup_then_write_then_restore[OF sample_disk_simps(1) l process_malformed_doc]
  note b = backup_then_write_then_restore[OF sample_disk_simps(1) l' process_malformed_doc]
  have fx: "fix_notebook ?e ''nb.ipynb'' (sample_disk malformed_text) =
      save_fixed ?e ''nb.ipynb'' (sample_disk malformed_text) repaired_doc
        [''Removing malformed widgets metadata at notebook level'']"
    using reachedI[OF sample_disk_simps(1) l process_malformed_doc] by (simp add: fix_notebook_def)
  have "files (fix_notebook ?e ''nb.ipynb'' (sample_disk malformed_text)) =
      [''nb.ipynb'' \<mapsto> malformed_text, ''nb.ipynb.bak-20240101_120000'' \<mapsto> malformed_text]"
    unfolding fx
    by (auto simp: save_fixed_def copy2_def write_file_def after_failure_def Let_def
        sample_env_simps sample_disk_def backup_path_of_def disk_full_def)
  moreover from a have "outcome (fix_notebook ?e ''nb.ipynb'' (sample_disk malformed_text)) = Inr False"
    "printed (fix_notebook ?e ''nb.ipynb'' (sample_disk malformed_text)) =
       [''Removing malformed widgets metadata at notebook level'',
        ''Created backup: nb.ipynb.bak-20240101_120000'',
        ''Error writing fixed notebook: [Errno 28] No space left on device'',
        ''Restored from backup due to write error'']"
    by (simp_all add: sample_env_simps backup_path_of_def disk_full_def)
  moreover from b have "outcome (fix_notebook ?e' ''nb.ipynb'' (sample_disk malformed_text)) = Inr False"
    "files (fix_notebook ?e' ''nb.ipynb'' (sample_disk malformed_text)) ''nb.ipynb'' = Some malformed_text"
    by (simp_all add: sample_env_simps backup_path_of_def denied_def)
  ultimately show ?thesis
    by (cases "fix_notebook ?e ''nb.ipynb'' (sample_disk malformed_text)") simp
qed

section \<open>Valid blocks stay, and a second run changes nothing\<close>

text \<open>
  C9. Take a run in which the two passes finish and, when they removed something,
  the backup copy and the write succeed and the parser reads the written text back
  as the document that was serialised. The run returns success; a notebook-level
  \<open>metadata.widgets\<close> that is a mapping with the key \<open>state\<close> is still there,
  unchanged, and a cell with such an entry is unchanged as a whole; and running
  \<open>fix_notebook\<close> again on the resulting disk is a no-op that returns success:
  nothing is written, no backup is made, and the notice that nothing malformed was
  found is printed.
\<close>

theorem valid_block_kept_and_second_run_noop:
  assumes "fs p = Some b" "load_notebook e p fs = Loaded nb"
    "process_notebook nb = Inr (nb', ch, out)"
    "ch \<Longrightarrow> copy_error e p (backup_path_of e p) = None \<and>
            write_error e p (fixed_text e nb') = None \<and>
            json_load e (fixed_text e nb') = Loaded nb'"
  shows "outcome (fix_notebook e p fs) = Inr True \<and>
         (\<forall>w. metadata_widgets nb = Some w \<and> has_valid_widget_state w \<longrightarrow>
              metadata_widgets nb' = Some w) \<and>
         list_all2 valid_block_kept (cells_of nb) (cells_of nb') \<and>
         fix_notebook e p (files (fix_notebook e p fs)) =
           \<lparr>outcome = Inr True, files = files (fix_notebook e p fs),
            printed = [''No malformed widget metadata found in: '' @ p]\<rparr>"
proof -
  from assms(1,2) have re: "read_error e p = None"
    by (simp add: load_notebook_def split: option.splits)
  have second: "fix_notebook e p fs' =
      \<lparr>outcome = Inr True, files = fs', printed = [''No malformed widget metadata found in: '' @ p]\<rparr>"
    if "fs' p = Some b'" "json_load e b' = Loaded nb'" for fs' b'
  proof -
    from that re have "load_notebook e p fs' = Loaded nb'" by (simp add: load_notebook_def)
    from reachedI[OF that(1) this process_idem[OF assms(3)]] show ?thesis
      by (simp add: fix_notebook_def)
  qed
  have run: "outcome (fix_notebook e p fs) = Inr True \<and>
      fix_notebook e p (files (fix_notebook e p fs)) =
           \<lparr>outcome = Inr True, files = files (fix_notebook e p fs),
            printed = [''No malformed widget metadata found in: '' @ p]\<rparr>"
  proof (cases ch)
    case True
    with assms(4) have ok: "copy_error e p (backup_path_of e p) = None"
      "write_error e p (fixed_text e nb') = None" "json_load e (fixed_text e nb') = Loaded nb'"
      by simp_all
    from reachedI[OF assms(1,2,3)] True save_fixed_ok[of fs p b e nb' out, OF assms(1) ok(1,2)]
    have fx: "fix_notebook e p fs =
       \<lparr>outcome = Inr True,
        files = fs(backup_path_of e p \<mapsto> b, p \<mapsto> fixed_text e nb'),
        printed = out @ [''Created backup: '' @ backup_path_of e p, ''Successfully fixed: '' @ p]\<rparr>"
      by (simp add: fix_notebook_def)
    have "(fs(backup_path_of e p \<mapsto> b, p \<mapsto> fixed_text e nb')) p = Some (fixed_text e nb')"
      by simp
    from second[of "fs(backup_path_of e p \<mapsto> b, p \<mapsto> fixed_text e nb')" "fixed_text e nb'",
        OF this ok(3)] fx
    show ?thesis by simp
  next
    case False
    with assms(3) process_unchanged[of nb nb' out] have same: "nb' = nb" "out = []" by simp_all
    from reachedI[OF assms(1,2,3)] False same
    have fx: "fix_notebook e p fs =
       \<lparr>outcome = Inr True, files = fs,
        printed = [''No malformed widget metadata found in: '' @ p]\<rparr>"
      by (simp add: fix_notebook_def)
    then show ?thesis by simp
  qed
  with process_valid_kept[OF assms(3)] show ?thesis by blast
qed

theorem valid_block_kept_and_second_run_noop_witness:
  "outcome (fix_notebook sample_env ''nb.ipynb'' (sample_disk malformed_text)) = Inr True \<and>
   fix_notebook sample_env ''nb.ipynb''
       (files (fix_notebook sample_env ''nb.ipynb'' (sample_disk malformed_text))) =
     \<lparr>outcome = Inr True,
      files = files (fix_notebook sample_env ''nb.ipynb'' (sample_disk malformed_text)),
      printed = [''No malformed widget metadata found in: '' @ ''nb.ipynb'']\<rparr> \<and>
   outcome (fix_notebook sample_env ''nb.ipynb'' (sample_disk valid_text)) = Inr True \<and>
   list_all2 valid_block_kept (cells_of valid_doc) (cells_of valid_doc)"
proof -
  have l: "load_notebook sample_env ''nb.ipynb'' (sample_disk malformed_text) = Loaded malformed_doc"
    by (simp add: load_sample sample_env_simps sample_load_simps)
  have io: "True \<Longrightarrow> copy_error sample_env ''nb.ipynb'' (backup_path_of sample_env ''nb.ipynb'') = None \<and>
      write_error sample_env ''nb.ipynb'' (fixed_text sample_env repaired_doc) = None \<and>
      json_load sample_env (fixed_text sample_env repaired_doc) = Loaded repaired_doc"
    by (simp add: sample_env_simps fixed_text_def sample_dumps_def sample_load_simps)
  have l2: "load_notebook sample_env ''nb.ipynb'' (sample_disk valid_text) = Loaded valid_doc"
    by (simp add: load_sample sample_env_simps sample_load_simps)
  from valid_block_kept_and_second_run_noop[OF sample_disk_simps(1) l process_malformed_doc io]
    valid_block_kept_and_second_run_noop[OF sample_disk_simps(1) l2 process_valid_doc]
  show ?thesis by simp
qed

section \<open>The exit status\<close>

lemma save_fixed_outcome:
  assumes "fs p = Some b"
  shows "outcome (save_fixed e p fs nb' out) =
     Inr (copy_error e p (backup_path_of e p) = None \<and> write_error e p (fixed_text e nb') = None)"
  using assms
  by (simp add: save_fixed_def copy2_def write_file_def Let_def split: option.splits)

lemma fix_notebook_outcome:
  "outcome (fix_notebook e p fs) =
     (case fs p of
        None \<Rightarrow> Inr False
      | Some b \<Rightarrow>
          (case load_notebook e p fs of
             JSONDecodeError msg \<Rightarrow> Inr False
           | OtherError msg \<Rightarrow> Inr False
           | Loaded nb \<Rightarrow>
               (case process_notebook nb of
                  Inl (err, out) \<Rightarrow> Inl err
                | Inr (nb', ch, out) \<Rightarrow>
                    Inr (ch \<longrightarrow> copy_error e p (backup_path_of e p) = None \<and>
                               write_error e p (fixed_text e nb') = None))))"
  by (auto simp: fix_notebook_def lines_44_to_79_def save_fixed_outcome
      split: option.splits load_result.splits sum.splits)

text \<open>
  C4. For an invocation whose arguments \<open>argparse\<close> accepts, the process ends with
  status 0 exactly when \<open>fix_notebook\<close> returned success, which is the case when
  nothing had to be removed and when removal, backup and write all went through;
  it ends with status 1 when the file does not exist, when it cannot be read or
  parsed, when the backup copy fails and when the write fails; and the status is
  never anything but 0 or 1.
\<close>

theorem exit_status_reflects_outcome:
  assumes "parse_args e argv = Inr p"
  shows "(exit_status (fst (main e argv fs)) = 0 \<longleftrightarrow> outcome (fix_notebook e p fs) = Inr True) \<and>
         (exit_status (fst (main e argv fs)) = 0 \<or> exit_status (fst (main e argv fs)) = 1) \<and>
         (outcome (fix_notebook e p fs) = Inr True \<longrightarrow> fst (main e argv fs) = SystemExit 0) \<and>
         (outcome (fix_notebook e p fs) = Inr False \<longrightarrow> fst (main e argv fs) = SystemExit 1) \<and>
         (fs p = None \<longrightarrow> fst (main e argv fs) = SystemExit 1) \<and>
         (\<forall>msg. fs p \<noteq> None \<and> (load_notebook e p fs = JSONDecodeError msg \<or>
                                load_notebook e p fs = OtherError msg) \<longrightarrow>
            fst (main e argv fs) = SystemExit 1) \<and>
         (\<forall>nb nb' ch out. fs p \<noteq> None \<and> load_notebook e p fs = Loaded nb \<and>
              process_notebook nb = Inr (nb', ch, out) \<longrightarrow>
            fst (main e argv fs) =
              SystemExit (if ch \<longrightarrow> copy_error e p (backup_path_of e p) = None \<and>
                                    write_error e p (fixed_text e nb') = None
                          then 0 else 1))"
proof -
  have m: "fst (main e argv fs) =
      (case outcome (fix_notebook e p fs) of
         Inl err \<Rightarrow> Uncaught err
       | Inr success \<Rightarrow> SystemExit (if success then 0 else 1))"
    using assms by (simp add: main_def Let_def)
  have 1: "exit_status (fst (main e argv fs)) = 0 \<longleftrightarrow> outcome (fix_notebook e p fs) = Inr True"
    unfolding m by (simp split: sum.splits)
  have 2: "exit_status (fst (main e argv fs)) = 0 \<or> exit_status (fst (main e argv fs)) = 1"
    unfolding m by (simp split: sum.splits)
  have 3: "outcome (fix_notebook e p fs) = Inr b \<Longrightarrow>
      fst (main e argv fs) = SystemExit (if b then 0 else 1)" for b
    unfolding m by simp
  have 5: "fs p = None \<Longrightarrow> fst (main e argv fs) = SystemExit 1"
    unfolding m by (simp add: fix_notebook_outcome)
  have 6: "fst (main e argv fs) = SystemExit 1"
    if "fs p \<noteq> None" "load_notebook e p fs = JSONDecodeError msg \<or>
        load_notebook e p fs = OtherError msg" for msg
    using that unfolding m by (auto simp: fix_notebook_outcome)
  have 7: "fst (main e argv fs) =
        SystemExit (if ch \<longrightarrow> copy_error e p (backup_path_of e p) = None \<and>
                              write_error e p (fixed_text e nb') = None
                    then 0 else 1)"
    if "fs p \<noteq> None" "load_notebook e p fs = Loaded nb"
      "process_notebook nb = Inr (nb', ch, out)" for nb nb' ch out
    using that unfolding m by (auto simp: fix_notebook_outcome)
  from 1 2 3[of True] 3[of False] 5 6 7 show ?thesis by (simp (no_asm_simp)) blast
qed

theorem exit_status_reflects_outcome_witness:
  "fst (main sample_env [''nb.ipynb''] (sample_disk malformed_text)) = SystemExit 0 \<and>
   fst (main sample_env [''nb.ipynb''] (sample_disk valid_text)) = SystemExit 0 \<and>
   fst (main sample_env [''other.ipynb''] (sample_disk valid_text)) = SystemExit 1 \<and>
   fst (main sample_env [''nb.ipynb''] (sample_disk ''{'')) = SystemExit 1 \<and>
   fst (main (sample_env\<lparr>copy_error := \<lambda>src dst. Some denied\<rparr>) [''nb.ipynb'']
          (sample_disk malformed_text)) = SystemExit 1 \<and>
   fst (main (sample_env\<lparr>write_error := \<lambda>dst content. Some disk_full\<rparr>) [''nb.ipynb'']
          (sample_disk malformed_text)) = SystemExit 1"
proof -
  let ?c = "sample_env\<lparr>copy_error := \<lambda>src dst. Some denied\<rparr>"
  let ?w = "sample_env\<lparr>write_error := \<lambda>dst content. Some disk_full\<rparr>"
  have pa: "parse_args sample_env [q] = Inr q" "parse_args ?c [q] = Inr q"
    "parse_args ?w [q] = Inr q" for q
    by (simp_all add: sample_env_simps sample_parse_args_def)
  have l: "load_notebook e ''nb.ipynb'' (sample_disk malformed_text) = Loaded malformed_doc"
    if "read_error e ''nb.ipynb'' = None" "json_load e = sample_load" for e
    using that by (simp add: load_sample sample_load_simps)
  have l1: "load_notebook sample_env ''nb.ipynb'' (sample_disk malformed_text) = Loaded malformed_doc"
    "load_notebook ?c ''nb.ipynb'' (sample_disk malformed_text) = Loaded malformed_doc"
    "load_notebook ?w ''nb.ipynb'' (sample_disk malformed_text) = Loaded malformed_doc"
    by (simp_all add: l sample_env_simps)
  have l2: "load_notebook sample_env ''nb.ipynb'' (sample_disk valid_text) = Loaded valid_doc"
    by (simp add: load_sample sample_env_simps sample_load_simps)
  have l3: "load_notebook sample_env ''nb.ipynb'' (sample_disk ''{'') =
      JSONDecodeError ''Expecting value: line 1 column 1 (char 0)''"
    by (simp add: load_sample sample_env_simps sample_load_simps)
  from exit_status_reflects_outcome[OF pa(1), of "''nb.ipynb''" "sample_disk malformed_text"]
  have 1: "fst (main sample_env [''nb.ipynb''] (sample_disk malformed_text)) = SystemExit 0"
    by (auto simp: l1 process_malformed_doc sample_disk_simps sample_env_simps)
  from exit_status_reflects_outcome[OF pa(1), of "''nb.ipynb''" "sample_disk valid_text"]
  have 2: "fst (main sample_env [''nb.ipynb''] (sample_disk valid_text)) = SystemExit 0"
    by (auto simp: l2 process_valid_doc sample_disk_simps)
  from exit_status_reflects_outcome[OF pa(1), of "''other.ipynb''" "sample_disk valid_text"]
  have 3: "fst (main sample_env [''other.ipynb''] (sample_disk valid_text)) = SystemExit 1"
    by (auto simp: sample_disk_simps)
  from exit_status_reflects_outcome[OF pa(1), of "''nb.ipynb''" "sample_disk ''{''"]
  have 4: "fst (main sample_env [''nb.ipynb''] (sample_disk ''{'')) = SystemExit 1"
    by (auto simp: l3 sample_disk_simps)
  from exit_status_reflects_outcome[OF pa(2), of "''nb.ipynb''" "sample_disk malformed_text"]
  have 5: "fst (main ?c [''nb.ipynb''] (sample_disk malformed_text)) = SystemExit 1"
    by (auto simp: l1 process_malformed_doc sample_disk_simps)
  from exit_status_reflects_outcome[OF pa(3), of "''nb.ipynb''" "sample_disk malformed_text"]
  have 6: "fst (main ?w [''nb.ipynb''] (sample_disk malformed_text)) = SystemExit 1"
    by (auto simp: l1 process_malformed_doc sample_disk_simps sample_env_simps)
  from 1 2 3 4 5 6 show ?thesis by simp
qed

section \<open>A document that is not a mapping\<close>

text \<open>
  C5 does not hold of the code. The file \<open>null\<close> is valid JSON and \<open>json.load\<close>
  returns \<open>None\<close>; line 63 evaluates \<open>'metadata' in None\<close> outside every \<open>try\<close>,
  the \<open>TypeError\<close> leaves \<open>fix_notebook\<close> and \<open>main\<close>, and nothing is printed by
  the program. A document whose \<open>cells\<close> is \<open>null\<close> fails the same way at line 73,
  after the notebook-level removal was announced.
\<close>

theorem fix_notebook_raises_on_null:
  "fix_notebook sample_env ''nb.ipynb'' (sample_disk ''null'') =
     \<lparr>outcome = Inl TypeError, files = sample_disk ''null'', printed = []\<rparr> \<and>
   fst (main sample_env [''nb.ipynb''] (sample_disk ''null'')) = Uncaught TypeError \<and>
   fix_notebook sample_env ''nb.ipynb'' (sample_disk null_cells_text) =
     \<lparr>outcome = Inl TypeError, files = sample_disk null_cells_text,
      printed = [''Removing malformed widgets metadata at notebook level'']\<rparr>"
proof -
  have l: "load_notebook sample_env ''nb.ipynb'' (sample_disk ''null'') = Loaded JNull"
    by (simp add: load_sample sample_env_simps sample_load_simps)
  have l': "load_notebook sample_env ''nb.ipynb'' (sample_disk null_cells_text) =
      Loaded null_cells_doc"
    by (simp add: load_sample sample_env_simps sample_load_simps)
  have 1: "fix_notebook sample_env ''nb.ipynb'' (sample_disk ''null'') =
     \<lparr>outcome = Inl TypeError, files = sample_disk ''null'', printed = []\<rparr>"
    by (simp add: fix_notebook_def lines_44_to_79_def l process_null sample_disk_simps)
  have 2: "fix_notebook sample_env ''nb.ipynb'' (sample_disk null_cells_text) =
     \<lparr>outcome = Inl TypeError, files = sample_disk null_cells_text,
      printed = [''Removing malformed widgets metadata at notebook level'']\<rparr>"
    by (simp add: fix_notebook_def lines_44_to_79_def l' process_null_cells_doc sample_disk_simps)
  have "fst (main sample_env [''nb.ipynb''] (sample_disk ''null'')) = Uncaught TypeError"
    by (simp add: main_def 1 sample_env_simps sample_parse_args_def)
  with 1 2 show ?thesis by simp
qed

section \<open>The passes depend on the parsed document alone\<close>

text \<open>
  C10. Two runs that parsed equal documents, whatever their paths, disks, clocks
  and failing operations, reach line 81 with equal \<open>notebook\<close>, equal
  \<open>changes_made\<close> and equal printed lines, or neither reaches it.
\<close>

theorem passes_depend_on_document_only:
  assumes "fs1 p1 \<noteq> None" "fs2 p2 \<noteq> None"
    "load_notebook e1 p1 fs1 = Loaded nb" "load_notebook e2 p2 fs2 = Loaded nb"
  shows "lines_44_to_79 e1 p1 fs1 = Reached nb' ch out \<longleftrightarrow>
         lines_44_to_79 e2 p2 fs2 = Reached nb' ch out"
  using assms by (simp add: reached_iff)

theorem passes_depend_on_document_only_witness:
  "lines_44_to_79 sample_env ''nb.ipynb'' (sample_disk malformed_text) =
     Reached repaired_doc True [''Removing malformed widgets metadata at notebook level''] \<and>
   lines_44_to_79 (sample_env\<lparr>now := ''20250505_050505'', copy_error := \<lambda>src dst. Some denied\<rparr>)
       ''copy.ipynb'' [''copy.ipynb'' \<mapsto> malformed_text, ''x'' \<mapsto> ''y''] =
     Reached repaired_doc True [''Removing malformed widgets metadata at notebook level'']"
proof -
  let ?e2 = "sample_env\<lparr>now := ''20250505_050505'', copy_error := \<lambda>src dst. Some denied\<rparr>"
  let ?fs2 = "[''copy.ipynb'' \<mapsto> malformed_text, ''x'' \<mapsto> ''y'']"
  have l1: "load_notebook sample_env ''nb.ipynb'' (sample_disk malformed_text) = Loaded malformed_doc"
    by (simp add: load_sample sample_env_simps sample_load_simps)
  have l2: "load_notebook ?e2 ''copy.ipynb'' ?fs2 = Loaded malformed_doc"
    by (simp add: load_notebook_def sample_env_simps sample_load_simps)
  have f1: "sample_disk malformed_text ''nb.ipynb'' \<noteq> None" by (simp add: sample_disk_simps)
  have f2: "?fs2 ''copy.ipynb'' \<noteq> None" by simp
  have r: "lines_44_to_79 sample_env ''nb.ipynb'' (sample_disk malformed_text) =
     Reached repaired_doc True [''Removing malformed widgets metadata at notebook level'']"
    using reachedI[OF sample_disk_simps(1) l1 process_malformed_doc] .
  with passes_depend_on_document_only[OF f1 f2 l1 l2, of repaired_doc True
      "[''Removing malformed widgets metadata at notebook level'']"]
  show ?thesis by simp
qed

end
